theory Spec2Isabelle
  imports Main
begin

section \<open>JavaScript strings\<close>

text \<open>
  A JavaScript string is a sequence of UTF-16 code units. A code unit is modelled as a
  natural number, so that the character classes of the source that go beyond Latin-1
  (the bullet U+2022, the euro sign U+20AC, the Unicode spaces) are the classes of the model.
  \<open>js\<close> turns a literal of the theory into such a string.
\<close>

type_synonym jschar = nat
type_synonym jsstring = "nat list"

definition js :: "string \<Rightarrow> jsstring" where
  "js s = map of_char s"

text \<open>\<^verbatim>\<open>\s\<close> of a regular expression and the characters removed by \<^verbatim>\<open>trim()\<close>:
  WhiteSpace and LineTerminator of ECMAScript.\<close>

definition is_space :: "jschar \<Rightarrow> bool" where
  "is_space c \<longleftrightarrow> c \<in> {9, 10, 11, 12, 13, 32, 160, 5760, 8232, 8233, 8239, 8287, 12288, 65279}
     \<or> (8192 \<le> c \<and> c \<le> 8202)"

text \<open>LineTerminator: what \<^verbatim>\<open>.\<close> does not match, and where \<^verbatim>\<open>^\<close> and \<^verbatim>\<open>$\<close> match
  under the \<^verbatim>\<open>m\<close> flag.\<close>

definition is_lineterm :: "jschar \<Rightarrow> bool" where
  "is_lineterm c \<longleftrightarrow> c \<in> {10, 13, 8232, 8233}"

definition is_digit :: "jschar \<Rightarrow> bool" where
  "is_digit c \<longleftrightarrow> 48 \<le> c \<and> c \<le> 57"

definition is_upper :: "jschar \<Rightarrow> bool" where
  "is_upper c \<longleftrightarrow> 65 \<le> c \<and> c \<le> 90"

definition is_lower :: "jschar \<Rightarrow> bool" where
  "is_lower c \<longleftrightarrow> 97 \<le> c \<and> c \<le> 122"

text \<open>\<^verbatim>\<open>\w\<close>, which decides \<^verbatim>\<open>\b\<close>.\<close>

definition is_word :: "jschar \<Rightarrow> bool" where
  "is_word c \<longleftrightarrow> is_digit c \<or> is_upper c \<or> is_lower c \<or> c = 95"

definition trim :: "jsstring \<Rightarrow> jsstring" where
  "trim s = rev (dropWhile is_space (rev (dropWhile is_space s)))"

text \<open>\<^verbatim>\<open>s.split('\n')\<close>: the pieces between the line feeds; the empty string gives one
  empty piece.\<close>

fun split_nl_acc :: "jsstring \<Rightarrow> jsstring \<Rightarrow> jsstring list" where
  "split_nl_acc cur [] = [rev cur]"
| "split_nl_acc cur (c # r) =
     (if c = 10 then rev cur # split_nl_acc [] r else split_nl_acc (c # cur) r)"

definition split_nl :: "jsstring \<Rightarrow> jsstring list" where
  "split_nl s = split_nl_acc [] s"

text \<open>\<^verbatim>\<open>xs.join(sep)\<close>.\<close>

fun join :: "jsstring \<Rightarrow> jsstring list \<Rightarrow> jsstring" where
  "join sep [] = []"
| "join sep [x] = x"
| "join sep (x # y # ys) = x @ sep @ join sep (y # ys)"

text \<open>\<^verbatim>\<open>lines.filter((l) => l.trim())\<close>: the empty string is the only falsy string.\<close>

definition nonblank :: "jsstring list \<Rightarrow> jsstring list" where
  "nonblank ls = filter (\<lambda>l. trim l \<noteq> []) ls"

text \<open>The decimal numeral of a number, as a template literal renders it.\<close>

fun dec :: "nat \<Rightarrow> jsstring" where
  "dec n = (if n < 10 then [48 + n] else dec (n div 10) @ [48 + n mod 10])"

declare dec.simps [simp del]

section \<open>Regular expressions\<close>

text \<open>
  The regular expressions of the source are terms of the datatype \<open>re\<close>, and \<open>rmatch\<close> is the
  backtracking matcher of ECMAScript: it returns the states the match can end in, in the order
  backtracking tries them, so that the head of the list is the match the engine reports.
  A state is the reversed text before the position, the text from the position on, and the
  captures made so far. The flag \<open>ml\<close> is the \<^verbatim>\<open>m\<close> flag. The \<^verbatim>\<open>i\<close> flag is written into the
  character tests (\<open>ci\<close>): without the \<^verbatim>\<open>u\<close> flag a pattern letter of ASCII matches its two
  ASCII cases and nothing else. A capture inside a quantifier is not reset between
  iterations; no expression of the source reads such a capture.
\<close>

datatype re =
    Chr "jschar \<Rightarrow> bool"
  | Eps
  | Seq re re
  | Alt re re
  | Star re
  | Bol
  | Eol
  | WordB
  | Grp nat re
  | Ahead re

type_synonym mstate = "jsstring \<times> jsstring \<times> (nat \<times> jsstring) list"

function rmatch :: "bool \<Rightarrow> re \<Rightarrow> mstate \<Rightarrow> mstate list" where
  "rmatch ml (Chr P) (l, r, g) =
     (case r of [] \<Rightarrow> [] | c # r' \<Rightarrow> if P c then [(c # l, r', g)] else [])"
| "rmatch ml Eps st = [st]"
| "rmatch ml (Seq a b) st = concat (map (rmatch ml b) (rmatch ml a st))"
| "rmatch ml (Alt a b) st = rmatch ml a st @ rmatch ml b st"
| "rmatch ml (Star a) (l, r, g) =
     concat (map (\<lambda>st'. if length (fst (snd st')) < length r then rmatch ml (Star a) st' else [])
                 (rmatch ml a (l, r, g)))
     @ [(l, r, g)]"
| "rmatch ml Bol (l, r, g) =
     (if l = [] \<or> (ml \<and> is_lineterm (hd l)) then [(l, r, g)] else [])"
| "rmatch ml Eol (l, r, g) =
     (if r = [] \<or> (ml \<and> is_lineterm (hd r)) then [(l, r, g)] else [])"
| "rmatch ml WordB (l, r, g) =
     (if (l \<noteq> [] \<and> is_word (hd l)) \<noteq> (r \<noteq> [] \<and> is_word (hd r)) then [(l, r, g)] else [])"
| "rmatch ml (Grp n a) (l, r, g) =
     map (\<lambda>(l', r', g'). (l', r', (n, take (length r - length r') r) # g'))
         (rmatch ml a (l, r, g))"
| "rmatch ml (Ahead a) st = (if rmatch ml a st = [] then [] else [st])"
  by pat_completeness auto
termination
  by (relation "measures [\<lambda>(ml, e, st). size e, \<lambda>(ml, e, l, r, g). length r]") auto

text \<open>Derived forms: \<^verbatim>\<open>x+\<close>, \<^verbatim>\<open>x?\<close>, a literal, a literal under the \<^verbatim>\<open>i\<close> flag.\<close>

definition Plus :: "re \<Rightarrow> re" where
  "Plus a = Seq a (Star a)"

definition Opt :: "re \<Rightarrow> re" where
  "Opt a = Alt a Eps"

definition ch :: "char \<Rightarrow> re" where
  "ch c = Chr (\<lambda>x. x = of_char c)"

definition ci :: "char \<Rightarrow> re" where
  "ci c = Chr (\<lambda>x. x = of_char c
            \<or> (is_upper (of_char c) \<and> x = of_char c + 32)
            \<or> (is_lower (of_char c) \<and> x + 32 = of_char c))"

definition lit :: "string \<Rightarrow> re" where
  "lit s = foldr (\<lambda>c e. Seq (ch c) e) s Eps"

definition lit_ci :: "string \<Rightarrow> re" where
  "lit_ci s = foldr (\<lambda>c e. Seq (ci c) e) s Eps"

definition seqs :: "re list \<Rightarrow> re" where
  "seqs es = foldr Seq es Eps"

text \<open>
  \<^verbatim>\<open>re.exec(s)\<close> without the \<^verbatim>\<open>g\<close> flag, which is also \<^verbatim>\<open>s.match(re)\<close>: the first position,
  from the left, at which the expression matches. The result is the text before the match,
  the matched text, the text after it, and the captures.
\<close>

fun search :: "bool \<Rightarrow> re \<Rightarrow> jsstring \<Rightarrow> jsstring
    \<Rightarrow> (jsstring \<times> jsstring \<times> jsstring \<times> (nat \<times> jsstring) list) option" where
  "search ml e l [] =
     (case rmatch ml e (l, [], []) of
        [] \<Rightarrow> None
      | (l', r', g) # _ \<Rightarrow> Some (rev l, [], r', g))"
| "search ml e l (c # r) =
     (case rmatch ml e (l, c # r, []) of
        [] \<Rightarrow> search ml e (c # l) r
      | (l', r', g) # _ \<Rightarrow> Some (rev l, take (length (c # r) - length r') (c # r), r', g))"

definition re_exec :: "bool \<Rightarrow> re \<Rightarrow> jsstring
    \<Rightarrow> (jsstring \<times> jsstring \<times> jsstring \<times> (nat \<times> jsstring) list) option" where
  "re_exec ml e s = search ml e [] s"

definition re_test :: "bool \<Rightarrow> re \<Rightarrow> jsstring \<Rightarrow> bool" where
  "re_test ml e s \<longleftrightarrow> re_exec ml e s \<noteq> None"

text \<open>\<^verbatim>\<open>s.replace(re, '')\<close> without the \<^verbatim>\<open>g\<close> flag: the first match is removed.\<close>

definition remove_first :: "bool \<Rightarrow> re \<Rightarrow> jsstring \<Rightarrow> jsstring" where
  "remove_first ml e s =
     (case re_exec ml e s of None \<Rightarrow> s | Some (before, m, after, g) \<Rightarrow> before @ after)"

text \<open>
  \<^verbatim>\<open>s.replace(re, '')\<close> with the \<^verbatim>\<open>g\<close> flag: every match is removed, the search going on
  where the last match ended (one code unit further after an empty match). \<open>skip\<close> is the
  number of code units of the current match still to be dropped.
\<close>

fun remove_all_from :: "bool \<Rightarrow> re \<Rightarrow> nat \<Rightarrow> jsstring \<Rightarrow> jsstring \<Rightarrow> jsstring" where
  "remove_all_from ml e skip l [] = []"
| "remove_all_from ml e skip l (c # r) =
     (if 0 < skip then remove_all_from ml e (skip - 1) (c # l) r
      else (case rmatch ml e (l, c # r, []) of
              [] \<Rightarrow> c # remove_all_from ml e 0 (c # l) r
            | (l', r', g) # _ \<Rightarrow>
                (let n = length (c # r) - length r'
                 in if n = 0 then c # remove_all_from ml e 0 (c # l) r
                    else remove_all_from ml e (n - 1) (c # l) r)))"

definition remove_all :: "bool \<Rightarrow> re \<Rightarrow> jsstring \<Rightarrow> jsstring" where
  "remove_all ml e s = remove_all_from ml e 0 [] s"

text \<open>
  \<^verbatim>\<open>s.split(re)\<close> for an expression without captures. \<open>cur\<close> is the reversed piece from the
  last split point \<open>p\<close> to the position \<open>q\<close>; a match at \<open>q\<close> that ends at \<open>p\<close> (an empty match
  right at the split point) is passed over, as the standard says; no match is tried at the
  end of the string. The empty string gives one empty piece unless the expression matches it.
\<close>

fun split_from :: "bool \<Rightarrow> re \<Rightarrow> nat \<Rightarrow> jsstring \<Rightarrow> jsstring \<Rightarrow> jsstring \<Rightarrow> jsstring list" where
  "split_from ml e skip cur l [] = [rev cur]"
| "split_from ml e skip cur l (c # r) =
     (if 0 < skip then split_from ml e (skip - 1) cur (c # l) r
      else (case rmatch ml e (l, c # r, []) of
              [] \<Rightarrow> split_from ml e 0 (c # cur) (c # l) r
            | (l', r', g) # _ \<Rightarrow>
                (let n = length (c # r) - length r'
                 in if n = 0 then
                      (if cur = [] then split_from ml e 0 [c] (c # l) r
                       else rev cur # split_from ml e 0 [c] (c # l) r)
                    else rev cur # split_from ml e (n - 1) [] (c # l) r)))"

definition split_re :: "bool \<Rightarrow> re \<Rightarrow> jsstring \<Rightarrow> jsstring list" where
  "split_re ml e s =
     (if s = [] then (if rmatch ml e ([], [], []) = [] then [[]] else [])
      else split_from ml e 0 [] [] s)"

section \<open>Mind map: \<^verbatim>\<open>parseTextMindMap\<close>\<close>

text \<open>
  A node of the graph handed to the renderer, with the fields that vary from node to node
  (the colour, border, radius and padding of the style are the same constants on every
  node and are left out). The default node has no font size and no font weight.
  The depth of a node is not a field of its own: it is \<open>position.x / 250\<close>.
\<close>

record mm_node =
  node_id :: jsstring
  node_label :: jsstring
  pos_x :: nat
  pos_y :: nat
  node_type :: jsstring
  background :: jsstring
  fontSize :: "jsstring option"
  fontWeight :: "jsstring option"

record mm_edge =
  edge_id :: jsstring
  source :: jsstring
  target :: jsstring

record mm_model =
  mm_nodes :: "mm_node list"
  mm_edges :: "mm_edge list"

text \<open>The variables of the loop over the lines. \<open>nodeStack\<close> is a JavaScript array: an
  assignment beyond its end leaves holes, which read as \<^verbatim>\<open>undefined\<close> (\<open>None\<close>).\<close>

record mm_state =
  nodes :: "mm_node list"
  edges :: "mm_edge list"
  nodeId :: nat
  nodeStack :: "jsstring option list"
  currentLevel :: nat

text \<open>\<^verbatim>\<open>line.match(/^(\s*)/)\<close> and the length of its first group.\<close>

definition indent_re :: re where
  "indent_re = seqs [Bol, Grp 1 (Star (Chr is_space))]"

definition indent_of :: "jsstring \<Rightarrow> nat" where
  "indent_of line =
     (case re_exec False indent_re line of
        None \<Rightarrow> 0
      | Some (before, m, after, g) \<Rightarrow> (case map_of g 1 of None \<Rightarrow> 0 | Some s \<Rightarrow> length s))"

text \<open>\<^verbatim>\<open>/^[-*\<dots>]\s*/\<close>: the class holds \<^verbatim>\<open>-\<close>, \<^verbatim>\<open>*\<close> and the three code units U+00E2,
  U+20AC, U+00A2 that the source file has in the place of a bullet.\<close>

definition mm_bullet_re :: re where
  "mm_bullet_re = seqs [Bol, Chr (\<lambda>c. c \<in> {45, 42, 226, 8364, 162}), Star (Chr is_space)]"

text \<open>\<^verbatim>\<open>nodeStack[i] = v\<close> and \<^verbatim>\<open>nodeStack[i]\<close>.\<close>

definition stack_set :: "jsstring option list \<Rightarrow> nat \<Rightarrow> jsstring \<Rightarrow> jsstring option list" where
  "stack_set st i v =
     (if i < length st then st[i := Some v]
      else st @ replicate (i - length st) None @ [Some v])"

definition stack_get :: "jsstring option list \<Rightarrow> nat \<Rightarrow> jsstring option" where
  "stack_get st i = (if i < length st then st ! i else None)"

definition mk_node :: "jsstring \<Rightarrow> jsstring \<Rightarrow> nat \<Rightarrow> nat \<Rightarrow> mm_node" where
  "mk_node ident txt level index =
     \<lparr> node_id = ident, node_label = txt,
       pos_x = level * 250, pos_y = index * 100,
       node_type = (if level = 0 then js ''input'' else js ''default''),
       background = (if level = 0 then js ''#6366f1''
                     else if level = 1 then js ''#8b5cf6'' else js ''#a78bfa''),
       fontSize = Some (if level = 0 then js ''16px'' else js ''14px''),
       fontWeight = Some (if level = 0 then js ''bold'' else js ''normal'') \<rparr>"

text \<open>The hierarchy tracking and the edge to the parent, for a line that gives a node.\<close>

definition track :: "mm_state \<Rightarrow> nat \<Rightarrow> jsstring \<Rightarrow> jsstring option list" where
  "track s level ident =
     (if currentLevel s < level then nodeStack s @ [Some ident]
      else if level < currentLevel s then take (level + 1) (nodeStack s) @ [Some ident]
      else stack_set (nodeStack s) level ident)"

definition parent_of :: "jsstring option list \<Rightarrow> nat \<Rightarrow> jsstring option" where
  "parent_of st level =
     (if 0 < level then
        (case stack_get st (level - 1) of
           None \<Rightarrow> None
         | Some p \<Rightarrow> if p = [] then None else Some p)
      else None)"

definition add_node :: "mm_state \<Rightarrow> nat \<Rightarrow> jsstring \<Rightarrow> nat \<Rightarrow> mm_state" where
  "add_node s level txt index =
     (let ident = js ''node-'' @ dec (nodeId s);
          st = track s level ident
      in \<lparr> nodes = nodes s @ [mk_node ident txt level index],
           edges = (case parent_of st level of
                      None \<Rightarrow> edges s
                    | Some p \<Rightarrow> edges s @ [\<lparr> edge_id = js ''edge-'' @ dec (length (edges s)),
                                              source = p, target = ident \<rparr>]),
           nodeId = nodeId s + 1,
           nodeStack = st,
           currentLevel = level \<rparr>)"

text \<open>The body of \<^verbatim>\<open>lines.forEach((line, index) => \<dots>)\<close>.\<close>

definition mm_line :: "mm_state \<Rightarrow> nat \<times> jsstring \<Rightarrow> mm_state" where
  "mm_line s il =
     (let level = indent_of (snd il) div 2;
          txt = remove_first False mm_bullet_re (trim (snd il))
      in if txt = [] then s else add_node s level txt (fst il))"

definition mm_init :: mm_state where
  "mm_init = \<lparr> nodes = [], edges = [], nodeId = 0, nodeStack = [], currentLevel = 0 \<rparr>"

definition default_node :: mm_node where
  "default_node =
     \<lparr> node_id = js ''node-0'', node_label = js ''Mind Map'', pos_x = 250, pos_y = 50,
       node_type = js ''input'', background = js ''#6366f1'',
       fontSize = None, fontWeight = None \<rparr>"

definition mm_loop :: "jsstring \<Rightarrow> mm_state" where
  "mm_loop text = foldl mm_line mm_init (enumerate 0 (nonblank (split_nl text)))"

definition parseTextMindMap :: "jsstring \<Rightarrow> mm_model" where
  "parseTextMindMap text =
     (let s = mm_loop text
      in \<lparr> mm_nodes = (if nodes s = [] then [default_node] else nodes s),
           mm_edges = edges s \<rparr>)"

text \<open>The depth of a node of the text grammar, and the edges as pairs of the identifiers of
  their source and target.\<close>

definition depth :: "mm_node \<Rightarrow> nat" where
  "depth n = pos_x n div 250"

definition links :: "mm_model \<Rightarrow> (jsstring \<times> jsstring) list" where
  "links m = map (\<lambda>e. (source e, target e)) (mm_edges m)"

section \<open>Quiz: \<^verbatim>\<open>parseTextQuiz\<close>\<close>

record quiz_question =
  question :: jsstring
  options :: "jsstring list"
  correctAnswer :: int
  explanation :: jsstring

text \<open>\<^verbatim>\<open>\*{0,2}\<close>, \<^verbatim>\<open>\d\<close>, \<^verbatim>\<open>\s\<close> and \<^verbatim>\<open>[a-dA-D]\<close> (which is also \<^verbatim>\<open>[A-D]\<close> under the \<^verbatim>\<open>i\<close> flag).\<close>

definition stars02 :: re where
  "stars02 = Opt (Seq (ch CHR ''*'') (Opt (ch CHR ''*'')))"

definition digit :: re where
  "digit = Chr is_digit"

definition ws :: re where
  "ws = Chr is_space"

definition is_letter_ad :: "jschar \<Rightarrow> bool" where
  "is_letter_ad c \<longleftrightarrow> (65 \<le> c \<and> c \<le> 68) \<or> (97 \<le> c \<and> c \<le> 100)"

text \<open>\<^verbatim>\<open>/(?=^\d+\.)/m\<close> and \<^verbatim>\<open>/\n\s*\n/\<close>, the two ways of cutting the text into sections.\<close>

definition numbered_start_re :: re where
  "numbered_start_re = Ahead (seqs [Bol, Plus digit, ch CHR ''.''])"

definition blank_line_re :: re where
  "blank_line_re = seqs [ch CHR 0x0A, Star ws, ch CHR 0x0A]"

text \<open>\<^verbatim>\<open>/^\*?\*?Question\s*\d*[\*\:]|\*?\d+\.|^Q\d*:/i\<close>; \<open>rest\<close> is what \<^verbatim>\<open>replace\<close> adds to each
  alternative: nothing in the test, \<^verbatim>\<open>\s*\<close> in the replacement.\<close>

definition question_alts :: "re \<Rightarrow> re" where
  "question_alts rest =
     Alt (seqs [Bol, Opt (ch CHR ''*''), Opt (ch CHR ''*''), lit_ci ''Question'', Star ws,
                Star digit, Chr (\<lambda>c. c = 42 \<or> c = 58), rest])
    (Alt (seqs [Opt (ch CHR ''*''), Plus digit, ch CHR ''.'', rest])
         (seqs [Bol, ci CHR ''Q'', Star digit, ch CHR '':'', rest]))"

definition question_re :: re where
  "question_re = question_alts Eps"

definition question_strip_re :: re where
  "question_strip_re = question_alts (Star ws)"

text \<open>\<^verbatim>\<open>/^\*?[a-dA-D][\)\.\:]|\*?\([a-dA-D]\)/\<close>.\<close>

definition option_alts :: "re \<Rightarrow> re" where
  "option_alts rest =
     Alt (seqs [Bol, Opt (ch CHR ''*''), Chr is_letter_ad,
                Chr (\<lambda>c. c = 41 \<or> c = 46 \<or> c = 58), rest])
         (seqs [Opt (ch CHR ''*''), ch CHR ''('', Chr is_letter_ad, ch CHR '')'', rest])"

definition option_re :: re where
  "option_re = option_alts Eps"

definition option_strip_re :: re where
  "option_strip_re = option_alts (Star ws)"

text \<open>\<^verbatim>\<open>/^\*{0,2}(Answer|Correct(\s+Answer)?)\*{0,2}[\s:\*]/i\<close>, and with \<^verbatim>\<open>[\s:\*]+\<close> in the
  replacement.\<close>

definition answer_label :: re where
  "answer_label =
     seqs [Bol, stars02,
           Grp 1 (Alt (lit_ci ''Answer'')
                      (Seq (lit_ci ''Correct'') (Opt (Grp 2 (Seq (Plus ws) (lit_ci ''Answer'')))))),
           stars02]"

definition is_answer_sep :: "jschar \<Rightarrow> bool" where
  "is_answer_sep c \<longleftrightarrow> is_space c \<or> c = 58 \<or> c = 42"

definition answer_re :: re where
  "answer_re = Seq answer_label (Chr is_answer_sep)"

definition answer_strip_re :: re where
  "answer_strip_re = Seq answer_label (Plus (Chr is_answer_sep))"

text \<open>\<^verbatim>\<open>/\b[A-D]\b/i\<close>.\<close>

definition letter_re :: re where
  "letter_re = seqs [WordB, Chr is_letter_ad, WordB]"

text \<open>\<^verbatim>\<open>/^\*{0,2}Explanation\*{0,2}:/i\<close>.\<close>

definition explanation_alts :: "re \<Rightarrow> re" where
  "explanation_alts rest = seqs [Bol, stars02, lit_ci ''Explanation'', stars02, ch CHR '':'', rest]"

definition explanation_re :: re where
  "explanation_re = explanation_alts Eps"

definition explanation_strip_re :: re where
  "explanation_strip_re = explanation_alts (Star ws)"

text \<open>\<^verbatim>\<open>toUpperCase()\<close> on a code unit of ASCII.\<close>

definition to_upper :: "jschar \<Rightarrow> jschar" where
  "to_upper c = (if is_lower c then c - 32 else c)"

text \<open>
  The answer branch: the label and the \<^verbatim>\<open>**\<close> are removed, the text is trimmed, and the first
  stand-alone letter gives the index (\<open>None\<close> when \<^verbatim>\<open>letterMatch\<close> is null).
\<close>

definition answer_text :: "jsstring \<Rightarrow> jsstring" where
  "answer_text line = trim (remove_all False (lit ''**'') (remove_first False answer_strip_re line))"

definition answer_letter :: "jsstring \<Rightarrow> int option" where
  "answer_letter line =
     (case re_exec False letter_re (answer_text line) of
        None \<Rightarrow> None
      | Some (before, m, after, g) \<Rightarrow>
          (case m of [] \<Rightarrow> None | c # _ \<Rightarrow> Some (int (to_upper c) - 65)))"

text \<open>How the \<^verbatim>\<open>if\<close> chain of the loop classifies a trimmed line: the first test that
  succeeds decides.\<close>

datatype line_kind = QuestionLine | OptionLine | AnswerLine | ExplanationLine | OtherLine

definition kind_of :: "jsstring \<Rightarrow> line_kind" where
  "kind_of line =
     (if re_test False question_re line then QuestionLine
      else if re_test False option_re line then OptionLine
      else if re_test False answer_re line then AnswerLine
      else if re_test False explanation_re line then ExplanationLine
      else OtherLine)"

text \<open>The body of the loop over the lines of a section; the record holds the four variables
  of the section, \<open>correctAnswer\<close> starting at \<open>-1\<close>.\<close>

definition quiz_line :: "quiz_question \<Rightarrow> jsstring \<Rightarrow> quiz_question" where
  "quiz_line q raw =
     (let line = trim raw
      in case kind_of line of
           QuestionLine \<Rightarrow> q\<lparr>question := trim (remove_first False question_strip_re line)\<rparr>
         | OptionLine \<Rightarrow> q\<lparr>options := options q @ [trim (remove_first False option_strip_re line)]\<rparr>
         | AnswerLine \<Rightarrow>
             (case answer_letter line of None \<Rightarrow> q | Some k \<Rightarrow> q\<lparr>correctAnswer := k\<rparr>)
         | ExplanationLine \<Rightarrow>
             q\<lparr>explanation := trim (remove_first False explanation_strip_re line)\<rparr>
         | OtherLine \<Rightarrow> q)"

definition quiz_init :: quiz_question where
  "quiz_init = \<lparr>question = [], options = [], correctAnswer = -1, explanation = []\<rparr>"

text \<open>What a section adds to \<^verbatim>\<open>questions\<close>: nothing or one question.\<close>

definition quiz_section :: "jsstring \<Rightarrow> quiz_question list" where
  "quiz_section section =
     (let lines = nonblank (split_nl section)
      in if length lines < 2 then []
         else
           (let q = foldl quiz_line quiz_init lines
            in if question q \<noteq> [] \<and> 2 \<le> length (options q)
               then [if correctAnswer q = -1 then q\<lparr>correctAnswer := 0\<rparr> else q]
               else []))"

definition quiz_sections :: "jsstring \<Rightarrow> jsstring list" where
  "quiz_sections text =
     (let sections = split_re True numbered_start_re text
      in if length sections = 1 then split_re False blank_line_re text else sections)"

definition parseTextQuiz :: "jsstring \<Rightarrow> quiz_question list" where
  "parseTextQuiz text = concat (map quiz_section (quiz_sections text))"

section \<open>Flashcards: \<^verbatim>\<open>parseTextFlashcards\<close>\<close>

text \<open>A card \<^verbatim>\<open>{ front, back }\<close>.\<close>

record flashcard =
  card_front :: jsstring
  card_back :: jsstring

text \<open>\<^verbatim>\<open>/^(Q|Question):/i\<close> and \<^verbatim>\<open>/^(A|Answer):/i\<close>, with \<^verbatim>\<open>\s*\<close> added in the replacements,
  and \<^verbatim>\<open>/^\d+\.\s*/\<close>.\<close>

definition q_label :: "re \<Rightarrow> re" where
  "q_label rest = seqs [Bol, Grp 1 (Alt (ci CHR ''Q'') (lit_ci ''Question'')), ch CHR '':'', rest]"

definition a_label :: "re \<Rightarrow> re" where
  "a_label rest = seqs [Bol, Grp 1 (Alt (ci CHR ''A'') (lit_ci ''Answer'')), ch CHR '':'', rest]"

definition numbering_re :: re where
  "numbering_re = seqs [Bol, Plus digit, ch CHR ''.'', Star ws]"

text \<open>The innermost loop (over \<open>k\<close>): the lines after the answer line are added to the back
  until a line starts a new question.\<close>

fun take_back :: "jsstring \<Rightarrow> jsstring list \<Rightarrow> jsstring" where
  "take_back b [] = b"
| "take_back b (l # ls) =
     (if \<not> re_test False (q_label Eps) l then take_back (b @ 10 # l) ls else b)"

text \<open>The middle loop (over \<open>j\<close>): the lines after the question line are added to the front
  until the answer line, which starts the back. The lines are tested as they are, untrimmed.\<close>

fun take_front :: "jsstring \<Rightarrow> jsstring list \<Rightarrow> jsstring \<times> jsstring" where
  "take_front f [] = (f, [])"
| "take_front f (l # ls) =
     (if re_test False (a_label Eps) l
      then (f, take_back (remove_first False (a_label (Star ws)) l) ls)
      else take_front (f @ 10 # l) ls)"

text \<open>The outer loop (over \<open>i\<close>): the first line that, trimmed, starts a question.\<close>

fun find_question :: "jsstring list \<Rightarrow> jsstring \<times> jsstring" where
  "find_question [] = ([], [])"
| "find_question (l # ls) =
     (if re_test False (q_label Eps) (trim l)
      then take_front (remove_first False (q_label (Star ws)) (trim l)) ls
      else find_question ls)"

definition qa_card :: "jsstring \<Rightarrow> flashcard list" where
  "qa_card section =
     (let lines = nonblank (split_nl section)
      in if 2 \<le> length lines then
           (case find_question lines of
              (f, b) \<Rightarrow> if f \<noteq> [] \<and> b \<noteq> [] then [\<lparr>card_front = trim f, card_back = trim b\<rparr>] else [])
         else [])"

text \<open>The numbered format, tried when the first format gave no card.\<close>

definition numbered_card :: "jsstring \<Rightarrow> flashcard list" where
  "numbered_card section =
     (case nonblank (split_nl section) of
        l0 # l1 # ls \<Rightarrow>
          [\<lparr>card_front = remove_first False numbering_re l0, card_back = join [10] (l1 # ls)\<rparr>]
      | _ \<Rightarrow> [])"

definition qa_cards :: "jsstring \<Rightarrow> flashcard list" where
  "qa_cards text = concat (map qa_card (split_re False blank_line_re text))"

definition numbered_cards :: "jsstring \<Rightarrow> flashcard list" where
  "numbered_cards text = concat (map numbered_card (split_re False blank_line_re text))"

definition sample_card :: flashcard where
  "sample_card = \<lparr>card_front = js ''Sample Question'', card_back = js ''Sample Answer''\<rparr>"

definition parseTextFlashcards :: "jsstring \<Rightarrow> flashcard list" where
  "parseTextFlashcards text =
     (let cards = (if qa_cards text = [] then numbered_cards text else qa_cards text)
      in if cards \<noteq> [] then cards else [sample_card])"

section \<open>Timeline: \<^verbatim>\<open>parseTextTimeline\<close>\<close>

record timeline_event =
  ev_date :: jsstring
  ev_title :: jsstring
  ev_description :: jsstring

text \<open>\<^verbatim>\<open>/^\[([^\]]+)\]:\s*(.+)/\<close>.\<close>

definition backend_re :: re where
  "backend_re =
     seqs [Bol, ch CHR ''['', Grp 1 (Plus (Chr (\<lambda>c. c \<noteq> 93))), ch CHR '']'', ch CHR '':'',
           Star ws, Grp 2 (Plus (Chr (\<lambda>c. \<not> is_lineterm c)))]"

text \<open>\<^verbatim>\<open>/^(\d{4}|\d{1,2}\/\d{1,2}\/\d{2,4}|[A-Z][a-z]+\s+\d{1,2},?\s+\d{4}|\d{1,2}\s+[A-Z][a-z]+\s+\d{4})/\<close>.\<close>

definition d4 :: re where
  "d4 = seqs [digit, digit, digit, digit]"

definition d12 :: re where
  "d12 = Seq digit (Opt digit)"

definition d24 :: re where
  "d24 = seqs [digit, digit, Opt (Seq digit (Opt digit))]"

definition date_re :: re where
  "date_re =
     Seq Bol (Grp 1
       (Alt d4
       (Alt (seqs [d12, ch CHR ''/'', d12, ch CHR ''/'', d24])
       (Alt (seqs [Chr is_upper, Plus (Chr is_lower), Plus ws, d12, Opt (ch CHR '',''), Plus ws, d4])
            (seqs [d12, Plus ws, Chr is_upper, Plus (Chr is_lower), Plus ws, d4])))))"

text \<open>\<^verbatim>\<open>/^[\s:-]+/\<close>, \<^verbatim>\<open>/^#+\s*/\<close>, \<^verbatim>\<open>/^[-*\<bullet>]\s*/\<close> (the bullet is U+2022) and \<^verbatim>\<open>/^\d+\.\s*/\<close>.\<close>

definition date_sep_re :: re where
  "date_sep_re = Seq Bol (Plus (Chr (\<lambda>c. is_space c \<or> c = 58 \<or> c = 45)))"

definition heading_re :: re where
  "heading_re = seqs [Bol, Plus (ch CHR ''#''), Star ws]"

definition tl_bullet_re :: re where
  "tl_bullet_re = seqs [Bol, Chr (\<lambda>c. c \<in> {45, 42, 8226}), Star ws]"

text \<open>\<^verbatim>\<open>s.replace(pat, '')\<close> with a string pattern: the first occurrence of \<open>pat\<close> is removed.\<close>

fun remove_first_str :: "jsstring \<Rightarrow> jsstring \<Rightarrow> jsstring" where
  "remove_first_str pat [] = []"
| "remove_first_str pat (c # r) =
     (if take (length pat) (c # r) = pat then drop (length pat) (c # r)
      else c # remove_first_str pat r)"

text \<open>What a block adds to \<^verbatim>\<open>events\<close>. \<open>lines\<close> are the non-blank lines of the block.\<close>

definition group :: "(nat \<times> jsstring) list \<Rightarrow> nat \<Rightarrow> jsstring" where
  "group g n = (case map_of g n of None \<Rightarrow> [] | Some s \<Rightarrow> s)"

definition or_unknown :: "jsstring \<Rightarrow> jsstring" where
  "or_unknown d = (if d = [] then js ''Unknown'' else d)"

definition block_event :: "jsstring list \<Rightarrow> timeline_event list" where
  "block_event lines =
     (case lines of
        [] \<Rightarrow> []
      | l0 # ls \<Rightarrow>
          (let description = trim (join [32] ls);
               dt = (case re_exec False backend_re l0 of
                       Some (before, m, after, g) \<Rightarrow> (group g 1, group g 2)
                     | None \<Rightarrow>
                         (case re_exec False date_re l0 of
                            Some (before, m, after, g) \<Rightarrow>
                              (group g 1,
                               trim (remove_first False date_sep_re (remove_first_str m l0)))
                          | None \<Rightarrow> (js ''Date Unknown'', l0)))
           in if snd dt \<noteq> []
              then [\<lparr>ev_date = or_unknown (fst dt), ev_title = snd dt,
                     ev_description = description\<rparr>]
              else []))"

definition block_events :: "jsstring \<Rightarrow> timeline_event list" where
  "block_events text =
     concat (map (\<lambda>b. block_event (nonblank (split_nl b)))
                 (nonblank (split_re False blank_line_re text)))"

text \<open>The bullet point format, tried when the blocks gave no event: the state is the current
  date and the events so far.\<close>

definition bullet_line :: "jsstring \<times> timeline_event list \<Rightarrow> jsstring \<Rightarrow> jsstring \<times> timeline_event list" where
  "bullet_line st line =
     (let trimmed = trim line
      in if re_test False heading_re trimmed
         then (remove_first False heading_re trimmed, snd st)
         else if re_test False tl_bullet_re trimmed
         then (fst st, snd st @ [\<lparr>ev_date = or_unknown (fst st),
                                   ev_title = remove_first False tl_bullet_re trimmed,
                                   ev_description = []\<rparr>])
         else if re_test False numbering_re trimmed
         then (fst st, snd st @ [\<lparr>ev_date = or_unknown (fst st),
                                   ev_title = remove_first False numbering_re trimmed,
                                   ev_description = []\<rparr>])
         else st)"

definition bullet_events :: "jsstring \<Rightarrow> timeline_event list" where
  "bullet_events text = snd (foldl bullet_line ([], []) (nonblank (split_nl text)))"

definition sample_event :: timeline_event where
  "sample_event = \<lparr>ev_date = js ''Sample Date'', ev_title = js ''Sample Event'',
                    ev_description = js ''Sample Description''\<rparr>"

definition parseTextTimeline :: "jsstring \<Rightarrow> timeline_event list" where
  "parseTextTimeline text =
     (let events = (if block_events text = [] then bullet_events text else block_events text)
      in if events \<noteq> [] then events else [sample_event])"

section \<open>\<^verbatim>\<open>JSON.parse\<close>\<close>

text \<open>
  \<^verbatim>\<open>JSON.parse\<close> is a function of the host. It is modelled by a lexer and a parser of the JSON
  grammar; \<open>None\<close> is the \<^verbatim>\<open>SyntaxError\<close> it throws. A number \<open>JNum m e\<close> stands for
  \<open>m * 10 ^ e\<close>: the rounding to a double and the sign of zero are not modelled. The members
  of an object are kept in the order of the text (keys that look like indices are not
  moved to the front), and a later member with the same key replaces the value of the
  earlier one.
\<close>

datatype json =
    JNull
  | JBool bool
  | JNum int int
  | JStr jsstring
  | JArr "json list"
  | JObj "(jsstring \<times> json) list"

text \<open>\<^verbatim>\<open>obj[k] = v\<close> on the members of an object: the value of a key that is there is
  replaced where it stands, a new key goes to the end.\<close>

fun set_member :: "(jsstring \<times> json) list \<Rightarrow> jsstring \<Rightarrow> json \<Rightarrow> (jsstring \<times> json) list" where
  "set_member [] k v = [(k, v)]"
| "set_member ((k', v') # ms) k v =
     (if k' = k then (k, v) # ms else (k', v') # set_member ms k v)"

datatype tok = TLBrace | TRBrace | TLBrack | TRBrack | TColon | TComma | TVal json

definition hexval :: "jschar \<Rightarrow> nat option" where
  "hexval c =
     (if is_digit c then Some (c - 48)
      else if 97 \<le> c \<and> c \<le> 102 then Some (c - 87)
      else if 65 \<le> c \<and> c \<le> 70 then Some (c - 55)
      else None)"

definition simple_escape :: "jschar \<Rightarrow> jschar option" where
  "simple_escape e =
     (if e = 34 \<or> e = 92 \<or> e = 47 then Some e
      else if e = 98 then Some 8
      else if e = 102 then Some 12
      else if e = 110 then Some 10
      else if e = 114 then Some 13
      else if e = 116 then Some 9
      else None)"

text \<open>The rest of a string after its opening quote: the decoded string and what follows the
  closing quote.\<close>

fun lex_string :: "jsstring \<Rightarrow> jsstring \<Rightarrow> (jsstring \<times> jsstring) option" where
  "lex_string acc [] = None"
| "lex_string acc (c # r) =
     (if c = 34 then Some (rev acc, r)
      else if c = 92 then
        (case r of
           [] \<Rightarrow> None
         | e # r1 \<Rightarrow>
             if e = 117 then
               (case r1 of
                  h1 # h2 # h3 # h4 # r2 \<Rightarrow>
                    (case (hexval h1, hexval h2, hexval h3, hexval h4) of
                       (Some a, Some b, Some c', Some d) \<Rightarrow>
                         lex_string ((((a * 16 + b) * 16 + c') * 16 + d) # acc) r2
                     | _ \<Rightarrow> None)
                | _ \<Rightarrow> None)
             else (case simple_escape e of
                     None \<Rightarrow> None
                   | Some x \<Rightarrow> lex_string (x # acc) r1))
      else if c < 32 then None
      else lex_string (c # acc) r)"

definition digits_val :: "jsstring \<Rightarrow> nat" where
  "digits_val ds = foldl (\<lambda>a c. 10 * a + (c - 48)) 0 ds"

text \<open>A number \<^verbatim>\<open>-?(0|[1-9]\d*)(\.\d+)?([eE][+-]?\d+)?\<close> at the head of the text.\<close>

definition lex_exponent :: "jsstring \<Rightarrow> (int \<times> jsstring) option" where
  "lex_exponent s =
     (case s of
        [] \<Rightarrow> Some (0, s)
      | c # r \<Rightarrow>
          if c = 101 \<or> c = 69 then
            (let neg = (case r of [] \<Rightarrow> False | x # _ \<Rightarrow> x = 45);
                 r1 = (case r of [] \<Rightarrow> r | x # r' \<Rightarrow> if x = 45 \<or> x = 43 then r' else r);
                 ds = takeWhile is_digit r1
             in if ds = [] then None
                else Some ((if neg then - int (digits_val ds) else int (digits_val ds)),
                           dropWhile is_digit r1))
          else Some (0, s))"

definition lex_fraction :: "jsstring \<Rightarrow> (jsstring \<times> jsstring) option" where
  "lex_fraction s =
     (case s of
        [] \<Rightarrow> Some ([], s)
      | c # r \<Rightarrow>
          if c = 46 then
            (if takeWhile is_digit r = [] then None
             else Some (takeWhile is_digit r, dropWhile is_digit r))
          else Some ([], s))"

definition lex_number :: "jsstring \<Rightarrow> (json \<times> jsstring) option" where
  "lex_number s =
     (let neg = (case s of [] \<Rightarrow> False | x # _ \<Rightarrow> x = 45);
          s1 = (if neg then tl s else s);
          ds = takeWhile is_digit s1
      in if ds = [] \<or> (1 < length ds \<and> hd ds = 48) then None
         else
           (case lex_fraction (dropWhile is_digit s1) of
              None \<Rightarrow> None
            | Some (fs, s2) \<Rightarrow>
                (case lex_exponent s2 of
                   None \<Rightarrow> None
                 | Some (e, s3) \<Rightarrow>
                     Some (JNum (if neg then - int (digits_val (ds @ fs)) else int (digits_val (ds @ fs)))
                                (e - int (length fs)),
                           s3))))"

lemma lex_string_shorter: "lex_string acc s = Some (x, r) \<Longrightarrow> length r < length s"
proof (induction s arbitrary: acc rule: length_induct)
  case (1 s)
  have IH: "\<And>t a. lex_string a t = Some (x, r) \<Longrightarrow> length t < length s \<Longrightarrow> length r < length t"
    using 1 by blast
  show ?case
  proof (cases s)
    case Nil
    with 1(2) show ?thesis by simp
  next
    case (Cons c r0)
    with 1(2) show ?thesis
      by (auto split: if_splits list.splits option.splits dest!: IH)
  qed
qed

lemma lex_exponent_shorter: "lex_exponent s = Some (e, r) \<Longrightarrow> length r \<le> length s"
  by (auto simp: lex_exponent_def Let_def split: list.splits if_splits
           intro: le_trans [OF length_dropWhile_le] le_SucI)

lemma lex_fraction_shorter: "lex_fraction s = Some (f, r) \<Longrightarrow> length r \<le> length s"
  by (auto simp: lex_fraction_def split: list.splits if_splits
           intro: le_trans [OF length_dropWhile_le] le_SucI)

lemma lex_number_shorter:
  assumes "lex_number s = Some (v, r)"
  shows "length r < length s"
proof -
  let ?neg = "case s of [] \<Rightarrow> False | x # _ \<Rightarrow> x = 45"
  let ?s1 = "if ?neg then tl s else s"
  from assms have ne: "takeWhile is_digit ?s1 \<noteq> []"
    by (auto simp: lex_number_def Let_def split: if_splits)
  from assms obtain f s2 e where
    f: "lex_fraction (dropWhile is_digit ?s1) = Some (f, s2)" and e: "lex_exponent s2 = Some (e, r)"
    by (auto simp: lex_number_def Let_def split: if_splits option.splits)
  have "length (takeWhile is_digit ?s1) + length (dropWhile is_digit ?s1) = length ?s1"
    by (metis length_append takeWhile_dropWhile_id)
  with ne have "length (dropWhile is_digit ?s1) < length ?s1"
    by (cases "takeWhile is_digit ?s1") auto
  moreover have "length ?s1 \<le> length s" by simp
  ultimately show ?thesis
    using lex_fraction_shorter [OF f] lex_exponent_shorter [OF e] by linarith
qed

function lex :: "jsstring \<Rightarrow> tok list option" where
  "lex [] = Some []"
| "lex (c # r) =
     (if c = 9 \<or> c = 10 \<or> c = 13 \<or> c = 32 then lex r
      else if c = 123 then map_option (Cons TLBrace) (lex r)
      else if c = 125 then map_option (Cons TRBrace) (lex r)
      else if c = 91 then map_option (Cons TLBrack) (lex r)
      else if c = 93 then map_option (Cons TRBrack) (lex r)
      else if c = 58 then map_option (Cons TColon) (lex r)
      else if c = 44 then map_option (Cons TComma) (lex r)
      else if c = 34 then
        (case lex_string [] r of
           None \<Rightarrow> None
         | Some (str, rest) \<Rightarrow> map_option (Cons (TVal (JStr str))) (lex rest))
      else if c = 45 \<or> is_digit c then
        (case lex_number (c # r) of
           None \<Rightarrow> None
         | Some (v, rest) \<Rightarrow> map_option (Cons (TVal v)) (lex rest))
      else if take 4 (c # r) = js ''null'' then map_option (Cons (TVal JNull)) (lex (drop 3 r))
      else if take 4 (c # r) = js ''true'' then map_option (Cons (TVal (JBool True))) (lex (drop 3 r))
      else if take 5 (c # r) = js ''false'' then map_option (Cons (TVal (JBool False))) (lex (drop 4 r))
      else None)"
  by pat_completeness auto
termination
  by (relation "measure length")
     (auto dest: lex_string_shorter lex_number_shorter)

text \<open>The parser reads the tokens one by one. A frame is an array or an object under
  construction (its elements reversed), and the mode says what may come next.\<close>

datatype frame =
    FArr "json list"
  | FObj "(jsstring \<times> json) list"
  | FKey "(jsstring \<times> json) list" jsstring

datatype pmode = PValue | PValueOrClose | PKeyOrClose | PKey | PColon jsstring | PAfter | PDone json

fun push_value :: "json \<Rightarrow> frame list \<Rightarrow> (frame list \<times> pmode) option" where
  "push_value v [] = Some ([], PDone v)"
| "push_value v (FArr xs # fs) = Some (FArr (v # xs) # fs, PAfter)"
| "push_value v (FKey ms k # fs) = Some (FObj ((k, v) # ms) # fs, PAfter)"
| "push_value v (FObj ms # fs) = None"

definition value_tok :: "frame list \<Rightarrow> tok \<Rightarrow> (frame list \<times> pmode) option" where
  "value_tok fs t =
     (case t of
        TVal v \<Rightarrow> push_value v fs
      | TLBrack \<Rightarrow> Some (FArr [] # fs, PValueOrClose)
      | TLBrace \<Rightarrow> Some (FObj [] # fs, PKeyOrClose)
      | _ \<Rightarrow> None)"

definition key_tok :: "frame list \<Rightarrow> tok \<Rightarrow> (frame list \<times> pmode) option" where
  "key_tok fs t = (case t of TVal (JStr k) \<Rightarrow> Some (fs, PColon k) | _ \<Rightarrow> None)"

definition close_arr :: "frame list \<Rightarrow> (frame list \<times> pmode) option" where
  "close_arr fs = (case fs of FArr xs # fs' \<Rightarrow> push_value (JArr (rev xs)) fs' | _ \<Rightarrow> None)"

definition close_obj :: "frame list \<Rightarrow> (frame list \<times> pmode) option" where
  "close_obj fs =
     (case fs of
        FObj ms # fs' \<Rightarrow>
          push_value (JObj (foldl (\<lambda>acc kv. set_member acc (fst kv) (snd kv)) [] (rev ms))) fs'
      | _ \<Rightarrow> None)"

definition pstep :: "frame list \<times> pmode \<Rightarrow> tok \<Rightarrow> (frame list \<times> pmode) option" where
  "pstep st t =
     (case snd st of
        PValue \<Rightarrow> value_tok (fst st) t
      | PValueOrClose \<Rightarrow> (case t of TRBrack \<Rightarrow> close_arr (fst st) | _ \<Rightarrow> value_tok (fst st) t)
      | PKeyOrClose \<Rightarrow> (case t of TRBrace \<Rightarrow> close_obj (fst st) | _ \<Rightarrow> key_tok (fst st) t)
      | PKey \<Rightarrow> key_tok (fst st) t
      | PColon k \<Rightarrow>
          (case t of
             TColon \<Rightarrow> (case fst st of FObj ms # fs' \<Rightarrow> Some (FKey ms k # fs', PValue) | _ \<Rightarrow> None)
           | _ \<Rightarrow> None)
      | PAfter \<Rightarrow>
          (case t of
             TComma \<Rightarrow>
               (case fst st of
                  FArr xs # fs' \<Rightarrow> Some (fst st, PValue)
                | FObj ms # fs' \<Rightarrow> Some (fst st, PKey)
                | _ \<Rightarrow> None)
           | TRBrack \<Rightarrow> close_arr (fst st)
           | TRBrace \<Rightarrow> close_obj (fst st)
           | _ \<Rightarrow> None)
      | PDone v \<Rightarrow> None)"

fun prun :: "frame list \<times> pmode \<Rightarrow> tok list \<Rightarrow> json option" where
  "prun st [] = (case st of ([], PDone v) \<Rightarrow> Some v | _ \<Rightarrow> None)"
| "prun st (t # ts) = (case pstep st t of None \<Rightarrow> None | Some st' \<Rightarrow> prun st' ts)"

definition JSON_parse :: "jsstring \<Rightarrow> json option" where
  "JSON_parse s = (case lex s of None \<Rightarrow> None | Some ts \<Rightarrow> prun ([], PValue) ts)"

section \<open>The parse step of the four viewers\<close>

datatype js_error = SyntaxError | TypeError

text \<open>
  \<^verbatim>\<open>obj.key\<close> on a decoded value, for the keys the viewers read (none of them is an index
  or \<^verbatim>\<open>length\<close>): \<open>None\<close> is \<^verbatim>\<open>undefined\<close>. The read throws on \<^verbatim>\<open>null\<close>; the callers test
  for it first.
\<close>

definition get_prop :: "json \<Rightarrow> jsstring \<Rightarrow> json option" where
  "get_prop v k = (case v of JObj ms \<Rightarrow> map_of ms k | _ \<Rightarrow> None)"

text \<open>\<^verbatim>\<open>{...q}\<close>: the own enumerable properties of the value, to which the object
  literal then adds its \<^verbatim>\<open>correctAnswer\<close>.\<close>

definition spread :: "json \<Rightarrow> (jsstring \<times> json) list" where
  "spread v =
     (case v of
        JObj ms \<Rightarrow> ms
      | JArr xs \<Rightarrow> zip (map dec [0..<length xs]) xs
      | JStr cs \<Rightarrow> zip (map dec [0..<length cs]) (map (\<lambda>c. JStr [c]) cs)
      | _ \<Rightarrow> [])"

text \<open>\<^verbatim>\<open>a ?? b\<close> on a property that may be missing.\<close>

definition nullish :: "json option \<Rightarrow> bool" where
  "nullish v \<longleftrightarrow> v = None \<or> v = Some JNull"

definition normalize_question :: "json \<Rightarrow> json" where
  "normalize_question q =
     JObj (set_member (spread q) (js ''correctAnswer'')
         (case get_prop q (js ''correctAnswer'') of
            Some v \<Rightarrow> if v = JNull then
                        (case get_prop q (js ''correct_answer'') of
                           Some w \<Rightarrow> if w = JNull then JNum 0 0 else w
                         | None \<Rightarrow> JNum 0 0)
                      else v
          | None \<Rightarrow>
              (case get_prop q (js ''correct_answer'') of
                 Some w \<Rightarrow> if w = JNull then JNum 0 0 else w
               | None \<Rightarrow> JNum 0 0)))"

text \<open>The objects the text grammars build, as values of the same kind as the decoded ones.\<close>

definition question_obj :: "quiz_question \<Rightarrow> json" where
  "question_obj q =
     JObj [(js ''question'', JStr (question q)),
           (js ''options'', JArr (map JStr (options q))),
           (js ''correctAnswer'', JNum (correctAnswer q) 0),
           (js ''explanation'', JStr (explanation q))]"

definition card_obj :: "flashcard \<Rightarrow> json" where
  "card_obj c = JObj [(js ''front'', JStr (card_front c)), (js ''back'', JStr (card_back c))]"

definition event_obj :: "timeline_event \<Rightarrow> json" where
  "event_obj e =
     JObj [(js ''date'', JStr (ev_date e)), (js ''title'', JStr (ev_title e)),
           (js ''description'', JStr (ev_description e))]"

text \<open>\<^verbatim>\<open>/^```(?:json)?\s*\n/gm\<close> and \<^verbatim>\<open>/\n```\s*$/gm\<close>.\<close>

definition fence_open_re :: re where
  "fence_open_re = seqs [Bol, lit ''```'', Opt (lit ''json''), Star ws, ch CHR 0x0A]"

definition fence_close_re :: re where
  "fence_close_re = seqs [ch CHR 0x0A, lit ''```'', Star ws, Eol]"

definition cleanContent :: "jsstring \<Rightarrow> jsstring" where
  "cleanContent content =
     trim (remove_all True fence_close_re (remove_all True fence_open_re (trim content)))"

text \<open>
  \<^verbatim>\<open>QuizViewer\<close>: the body of the \<^verbatim>\<open>try\<close>, then the whole memo. Reading \<^verbatim>\<open>q.correctAnswer\<close>
  on an element that is \<^verbatim>\<open>null\<close> throws inside the \<^verbatim>\<open>try\<close>, so the \<^verbatim>\<open>catch\<close> takes over.
\<close>

definition quiz_try :: "jsstring \<Rightarrow> js_error + json list" where
  "quiz_try content =
     (case JSON_parse (cleanContent content) of
        None \<Rightarrow> Inl SyntaxError
      | Some data \<Rightarrow>
          (case data of
             JArr xs \<Rightarrow> if JNull \<in> set xs then Inl TypeError else Inr (map normalize_question xs)
           | _ \<Rightarrow> Inr []))"

definition QuizViewer_questions :: "jsstring \<Rightarrow> json list" where
  "QuizViewer_questions content =
     (case quiz_try content of
        Inr qs \<Rightarrow> qs
      | Inl err \<Rightarrow> map question_obj (parseTextQuiz content))"

text \<open>\<^verbatim>\<open>TimelineViewer\<close> and \<^verbatim>\<open>FlashcardsViewer\<close>: the text is decoded as it is.\<close>

definition TimelineViewer_events :: "jsstring \<Rightarrow> json list" where
  "TimelineViewer_events content =
     (case JSON_parse content of
        None \<Rightarrow> map event_obj (parseTextTimeline content)
      | Some data \<Rightarrow> (case data of JArr xs \<Rightarrow> xs | _ \<Rightarrow> []))"

definition FlashcardsViewer_flashcards :: "jsstring \<Rightarrow> json list" where
  "FlashcardsViewer_flashcards content =
     (case JSON_parse content of
        None \<Rightarrow> map card_obj (parseTextFlashcards content)
      | Some data \<Rightarrow> (case data of JArr xs \<Rightarrow> xs | _ \<Rightarrow> []))"

text \<open>
  \<^verbatim>\<open>MindMapViewer\<close>: the decoded value is returned as it is and destructured into
  \<^verbatim>\<open>nodes\<close> and \<^verbatim>\<open>edges\<close> outside the \<^verbatim>\<open>try\<close>; destructuring \<^verbatim>\<open>null\<close> throws.
\<close>

datatype mm_graph = JsonGraph "json option" "json option" | TextGraph mm_model

definition MindMapViewer_initial :: "jsstring \<Rightarrow> js_error + mm_graph" where
  "MindMapViewer_initial content =
     (case JSON_parse content of
        None \<Rightarrow> Inr (TextGraph (parseTextMindMap content))
      | Some data \<Rightarrow>
          if data = JNull then Inl TypeError
          else Inr (JsonGraph (get_prop data (js ''nodes'')) (get_prop data (js ''edges''))))"

section \<open>The quiz session\<close>

text \<open>The six state variables of \<^verbatim>\<open>QuizViewer\<close>; \<open>selectedAnswer = None\<close> is \<^verbatim>\<open>null\<close>.\<close>

record quiz_session =
  currentIndex :: nat
  selectedAnswer :: "nat option"
  showResult :: bool
  score :: nat
  completed :: bool
  answeredQuestions :: "nat list"

definition session_init :: quiz_session where
  "session_init = \<lparr>currentIndex = 0, selectedAnswer = None, showResult = False, score = 0,
                     completed = False, answeredQuestions = []\<rparr>"

text \<open>\<^verbatim>\<open>selectedAnswer === currentQuestion.correctAnswer\<close>: the selection is an index, which a
  decoded value equals only if it is a number of the same value.\<close>

definition is_index :: "json option \<Rightarrow> nat \<Rightarrow> bool" where
  "is_index v i =
     (case v of
        Some (JNum m e) \<Rightarrow>
          if 0 \<le> e then m * 10 ^ nat e = int i else m = int i * 10 ^ nat (- e)
      | _ \<Rightarrow> False)"

definition handleAnswerSelect :: "quiz_session \<Rightarrow> nat \<Rightarrow> quiz_session" where
  "handleAnswerSelect st index = (if showResult st then st else st\<lparr>selectedAnswer := Some index\<rparr>)"

text \<open>\<^verbatim>\<open>handleSubmitAnswer\<close>. \<open>currentQuestion\<close> is \<^verbatim>\<open>questions[currentIndex]\<close>; reading its
  \<^verbatim>\<open>correctAnswer\<close> throws when it is \<^verbatim>\<open>undefined\<close> or \<^verbatim>\<open>null\<close>.\<close>

definition handleSubmitAnswer :: "json list \<Rightarrow> quiz_session \<Rightarrow> js_error + quiz_session" where
  "handleSubmitAnswer questions st =
     (case selectedAnswer st of
        None \<Rightarrow> Inr st
      | Some sel \<Rightarrow>
          if length questions \<le> currentIndex st \<or> questions ! currentIndex st = JNull
          then Inl TypeError
          else
            (let isCorrect = is_index (get_prop (questions ! currentIndex st) (js ''correctAnswer'')) sel
             in if isCorrect \<and> currentIndex st \<notin> set (answeredQuestions st)
                then Inr (st\<lparr>showResult := True, score := score st + 1,
                            answeredQuestions := answeredQuestions st @ [currentIndex st]\<rparr>)
                else Inr (st\<lparr>showResult := True\<rparr>)))"

definition handleNextQuestion :: "json list \<Rightarrow> quiz_session \<Rightarrow> quiz_session" where
  "handleNextQuestion questions st =
     (if int (currentIndex st) < int (length questions) - 1
      then st\<lparr>currentIndex := currentIndex st + 1, selectedAnswer := None, showResult := False\<rparr>
      else st\<lparr>completed := True\<rparr>)"

definition handleRestart :: "quiz_session \<Rightarrow> quiz_session" where
  "handleRestart st = session_init"

text \<open>The events of a session and a run of the handlers from a state; a handler that throws
  ends the run.\<close>

datatype event = Select nat | Submit | Next | Restart

fun handle :: "json list \<Rightarrow> quiz_session \<Rightarrow> event \<Rightarrow> js_error + quiz_session" where
  "handle qs st (Select i) = Inr (handleAnswerSelect st i)"
| "handle qs st Submit = handleSubmitAnswer qs st"
| "handle qs st Next = Inr (handleNextQuestion qs st)"
| "handle qs st Restart = Inr (handleRestart st)"

fun run :: "json list \<Rightarrow> quiz_session \<Rightarrow> event list \<Rightarrow> js_error + quiz_session" where
  "run qs st [] = Inr st"
| "run qs st (e # es) = (case handle qs st e of Inl err \<Rightarrow> Inl err | Inr st' \<Rightarrow> run qs st' es)"

section \<open>The properties, as predicates on the models\<close>

text \<open>The sources of the edges that end in a node, and the identifier of the nearest node
  before position \<open>i\<close> whose depth is one less than that of node \<open>i\<close>.\<close>

definition incoming :: "mm_model \<Rightarrow> jsstring \<Rightarrow> jsstring list" where
  "incoming m t = map source (filter (\<lambda>e. target e = t) (mm_edges m))"

definition nearest_above :: "mm_node list \<Rightarrow> nat \<Rightarrow> jsstring option" where
  "nearest_above ns i =
     (case filter (\<lambda>n. depth n + 1 = depth (ns ! i)) (rev (take i ns)) of
        [] \<Rightarrow> None
      | p # _ \<Rightarrow> Some (node_id p))"

text \<open>The parent invariant in the words of the specification: a node of depth 0 has no
  incoming edge, and a deeper node has exactly one, from the nearest preceding node one
  level up.\<close>

definition parent_invariant :: "mm_model \<Rightarrow> bool" where
  "parent_invariant m \<longleftrightarrow>
     list_all (\<lambda>i. if depth (mm_nodes m ! i) = 0
                   then incoming m (node_id (mm_nodes m ! i)) = []
                   else (case nearest_above (mm_nodes m) i of
                           None \<Rightarrow> False
                         | Some p \<Rightarrow> incoming m (node_id (mm_nodes m ! i)) = [p]))
              [0..<length (mm_nodes m)]"

text \<open>A well-formed graph: the identifiers are \<open>node-0\<close>, \<open>node-1\<close>, \<dots> in this order and
  pairwise distinct, every edge joins two nodes of the graph, and no node is the target of
  two edges.\<close>

definition wf_graph :: "mm_model \<Rightarrow> bool" where
  "wf_graph m \<longleftrightarrow>
     map node_id (mm_nodes m) = map (\<lambda>k. js ''node-'' @ dec k) [0..<length (mm_nodes m)]
   \<and> distinct (map node_id (mm_nodes m))
   \<and> (\<forall>e \<in> set (mm_edges m).
         source e \<in> set (map node_id (mm_nodes m)) \<and> target e \<in> set (map node_id (mm_nodes m)))
   \<and> distinct (map target (mm_edges m))"

text \<open>The value of a decimal numeral, and the invariant of the loop of
  \<^verbatim>\<open>parseTextMindMap\<close>.\<close>

definition undec :: "jsstring \<Rightarrow> nat" where
  "undec s = foldl (\<lambda>a c. 10 * a + (c - 48)) 0 s"

definition ident_of :: "nat \<Rightarrow> jsstring" where
  "ident_of k = js ''node-'' @ dec k"

definition mm_inv :: "mm_state \<Rightarrow> bool" where
  "mm_inv s \<longleftrightarrow>
     map node_id (nodes s) = map ident_of [0..<nodeId s]
   \<and> (\<forall>p. Some p \<in> set (nodeStack s) \<longrightarrow> p \<in> ident_of ` {..<nodeId s})
   \<and> (\<forall>e \<in> set (edges s).
         source e \<in> ident_of ` {..<nodeId s} \<and> target e \<in> ident_of ` {..<nodeId s})
   \<and> distinct (map target (edges s))"

text \<open>The indices of the letters found in the answer lines of a block, in the order of the lines.\<close>

definition resolved_letters :: "jsstring list \<Rightarrow> int list" where
  "resolved_letters ls =
     List.map_filter (\<lambda>l. if kind_of (trim l) = AnswerLine then answer_letter (trim l) else None) ls"

text \<open>A question whose \<open>correctAnswer\<close> is an index into its options.\<close>

definition valid_index :: "quiz_question \<Rightarrow> bool" where
  "valid_index q \<longleftrightarrow> 0 \<le> correctAnswer q \<and> correctAnswer q < int (length (options q))"

text \<open>A card with a front and a back that are strings and not empty after trimming, for the
  cards as the viewer holds them.\<close>

definition card_ok :: "json \<Rightarrow> bool" where
  "card_ok c \<longleftrightarrow>
     (case (get_prop c (js ''front''), get_prop c (js ''back'')) of
        (Some (JStr f), Some (JStr b)) \<Rightarrow> trim f \<noteq> [] \<and> trim b \<noteq> []
      | _ \<Rightarrow> False)"

text \<open>A string that is empty or has a character that is not white space, and a state of the
  matcher whose rest is empty or starts with such a character.\<close>

definition solid :: "jsstring \<Rightarrow> bool" where
  "solid s \<longleftrightarrow> s = [] \<or> (\<exists>c \<in> set s. \<not> is_space c)"

definition ends_solid :: "mstate \<Rightarrow> bool" where
  "ends_solid st \<longleftrightarrow> fst (snd st) = [] \<or> \<not> is_space (hd (fst (snd st)))"

text \<open>The invariant of the quiz session: the score counts the entries of
  \<open>answeredQuestions\<close>, which are distinct indices of questions.\<close>

definition session_inv :: "json list \<Rightarrow> quiz_session \<Rightarrow> bool" where
  "session_inv qs st \<longleftrightarrow>
     score st = length (answeredQuestions st)
   \<and> distinct (answeredQuestions st)
   \<and> set (answeredQuestions st) \<subseteq> {..<length qs}
   \<and> (qs \<noteq> [] \<longrightarrow> currentIndex st < length qs)"

section \<open>Evaluation\<close>

text \<open>The equations that compute the models on a concrete text.\<close>

lemmas js_eval = Let_def js_def is_space_def is_lineterm_def is_digit_def is_upper_def
  is_lower_def is_word_def trim_def split_nl_def nonblank_def dec.simps Plus_def Opt_def ch_def
  ci_def lit_def lit_ci_def seqs_def re_exec_def re_test_def remove_first_def remove_all_def
  split_re_def

lemmas mm_eval = indent_re_def indent_of_def mm_bullet_re_def stack_set_def stack_get_def
  mk_node_def track_def parent_of_def add_node_def mm_line_def mm_init_def default_node_def
  mm_loop_def parseTextMindMap_def depth_def links_def incoming_def nearest_above_def
  parent_invariant_def

lemmas quiz_eval = stars02_def digit_def ws_def is_letter_ad_def numbered_start_re_def
  blank_line_re_def question_alts_def question_re_def question_strip_re_def option_alts_def
  option_re_def option_strip_re_def answer_label_def is_answer_sep_def answer_re_def
  answer_strip_re_def letter_re_def explanation_alts_def explanation_re_def
  explanation_strip_re_def to_upper_def answer_text_def answer_letter_def kind_of_def
  quiz_line_def quiz_init_def quiz_section_def quiz_sections_def parseTextQuiz_def
  valid_index_def

lemmas card_eval = q_label_def a_label_def numbering_re_def qa_card_def numbered_card_def
  qa_cards_def numbered_cards_def sample_card_def parseTextFlashcards_def

lemmas timeline_eval = backend_re_def d4_def d12_def d24_def date_re_def date_sep_re_def
  heading_re_def tl_bullet_re_def group_def or_unknown_def block_event_def block_events_def
  bullet_line_def bullet_events_def sample_event_def parseTextTimeline_def

lemmas json_eval = hexval_def simple_escape_def digits_val_def lex_exponent_def
  lex_fraction_def lex_number_def value_tok_def key_tok_def close_arr_def close_obj_def
  pstep_def JSON_parse_def

lemmas viewer_eval = get_prop_def spread_def nullish_def normalize_question_def
  question_obj_def card_obj_def event_obj_def fence_open_re_def fence_close_re_def
  cleanContent_def quiz_try_def QuizViewer_questions_def TimelineViewer_events_def
  FlashcardsViewer_flashcards_def MindMapViewer_initial_def card_ok_def

lemmas session_eval = session_init_def is_index_def handleAnswerSelect_def
  handleSubmitAnswer_def handleNextQuestion_def handleRestart_def

section \<open>Mind map: theorems\<close>

lemma undec_dec: "undec (dec n) = n"
proof (induction n rule: dec.induct)
  case (1 n)
  show ?case
  proof (cases "n < 10")
    case True
    then show ?thesis by (simp add: dec.simps undec_def)
  next
    case False
    with 1 have "undec (dec (n div 10)) = n div 10" by simp
    with False show ?thesis
      by (subst dec.simps) (simp add: undec_def)
  qed
qed

lemma dec_inj: "dec m = dec n \<Longrightarrow> m = n"
  by (metis undec_dec)

lemma ident_of_inj: "ident_of m = ident_of n \<Longrightarrow> m = n"
  by (simp add: ident_of_def dec_inj)

lemma mm_inv_init: "mm_inv mm_init"
  by (simp add: mm_inv_def mm_init_def)

lemma track_entries:
  "Some p \<in> set (track s level ident) \<Longrightarrow> p = ident \<or> Some p \<in> set (nodeStack s)"
  by (auto simp: track_def stack_set_def split: if_splits
           dest: in_set_takeD set_update_subset_insert [THEN subsetD])

lemma parent_of_entry: "parent_of st level = Some p \<Longrightarrow> Some p \<in> set st"
  by (auto simp: parent_of_def stack_get_def split: if_splits option.splits)
     (metis nth_mem)

lemma mm_inv_add_node:
  assumes "mm_inv s"
  shows "mm_inv (add_node s level txt index)"
proof -
  let ?i = "js ''node-'' @ dec (nodeId s)"
  have i: "?i = ident_of (nodeId s)" by (simp add: ident_of_def)
  have fresh: "ident_of (nodeId s) \<notin> ident_of ` {..<nodeId s}"
    using ident_of_inj by fastforce
  have up: "ident_of ` {..<nodeId s} \<subseteq> ident_of ` {..<Suc (nodeId s)}" by auto
  have new: "ident_of (nodeId s) \<in> ident_of ` {..<Suc (nodeId s)}" by auto
  have st: "\<And>p. Some p \<in> set (track s level ?i) \<Longrightarrow> p \<in> ident_of ` {..<Suc (nodeId s)}"
    using assms track_entries[of _ s level ?i] up new unfolding mm_inv_def i by blast
  have par: "\<And>p. parent_of (track s level ?i) level = Some p \<Longrightarrow> p \<in> ident_of ` {..<Suc (nodeId s)}"
    using st parent_of_entry by blast
  have tg: "ident_of (nodeId s) \<notin> target ` set (edges s)"
    using assms fresh unfolding mm_inv_def by auto
  show ?thesis
    using assms st par tg up new unfolding mm_inv_def add_node_def Let_def i
    by (auto simp: mk_node_def split: option.splits)
qed

lemma mm_inv_line: "mm_inv s \<Longrightarrow> mm_inv (mm_line s il)"
  by (simp add: mm_line_def Let_def mm_inv_add_node)

lemma mm_inv_foldl: "mm_inv s \<Longrightarrow> mm_inv (foldl mm_line s ls)"
  by (induction ls arbitrary: s) (simp_all add: mm_inv_line)

lemma mm_inv_loop: "mm_inv (mm_loop text)"
  by (simp add: mm_loop_def mm_inv_foldl mm_inv_init)

lemma mm_inv_length: "mm_inv s \<Longrightarrow> length (nodes s) = nodeId s"
  by (metis mm_inv_def length_map length_upt minus_nat.diff_0)

lemma distinct_idents: "distinct (map ident_of [0..<n])"
  by (simp add: distinct_map inj_on_def) (metis ident_of_inj)

lemma wf_graph_default: "wf_graph \<lparr>mm_nodes = [default_node], mm_edges = []\<rparr>"
  by (simp add: wf_graph_def default_node_def dec.simps js_def)

lemma wf_graph_of_inv:
  assumes "mm_inv s" and "nodes s \<noteq> []"
  shows "wf_graph \<lparr>mm_nodes = nodes s, mm_edges = edges s\<rparr>"
proof -
  have len: "length (nodes s) = nodeId s" using assms(1) by (rule mm_inv_length)
  have ids: "map node_id (nodes s) = map ident_of [0..<nodeId s]"
    using assms(1) by (simp add: mm_inv_def)
  have set_ids: "set (map node_id (nodes s)) = ident_of ` {..<nodeId s}"
    unfolding ids by (simp add: lessThan_atLeast0)
  have "distinct (map node_id (nodes s))"
    unfolding ids by (rule distinct_idents)
  moreover have "map node_id (nodes s) = map (\<lambda>k. js ''node-'' @ dec k) [0..<length (nodes s)]"
    using ids len by (simp add: ident_of_def [abs_def])
  moreover have "\<forall>e \<in> set (edges s). source e \<in> set (map node_id (nodes s))
      \<and> target e \<in> set (map node_id (nodes s))"
    using assms(1) unfolding set_ids mm_inv_def by blast
  moreover have "distinct (map target (edges s))"
    using assms(1) by (simp add: mm_inv_def)
  ultimately show ?thesis by (simp add: wf_graph_def)
qed

lemma no_nodes_no_edges:
  assumes "mm_inv s" and "nodes s = []"
  shows "edges s = []"
proof -
  have "nodeId s = 0" using mm_inv_length [OF assms(1)] assms(2) by simp
  then have "\<forall>e \<in> set (edges s). False"
    using assms(1) by (auto simp: mm_inv_def)
  then show ?thesis by (cases "edges s") auto
qed

text \<open>
  C10. For every input text the graph returned by the outline grammar is well-formed: the
  node identifiers are \<open>node-0\<close>, \<open>node-1\<close>, \<dots> in parse order and pairwise distinct, the
  source and the target of every edge are identifiers of returned nodes, and no node is the
  target of more than one edge.
\<close>

theorem parseTextMindMap_wf_graph: "wf_graph (parseTextMindMap text)"
proof (cases "nodes (mm_loop text) = []")
  case True
  then show ?thesis
    using no_nodes_no_edges [OF mm_inv_loop True]
    by (simp add: parseTextMindMap_def Let_def wf_graph_default)
next
  case False
  then show ?thesis
    using wf_graph_of_inv [OF mm_inv_loop False]
    by (simp add: parseTextMindMap_def Let_def)
qed

text \<open>The theorem at a text with three edges: the bounded quantifier over the edges is not
  vacuous there.\<close>

theorem parseTextMindMap_wf_graph_witness:
  "length (mm_edges (parseTextMindMap (js ''A\<newline>  B\<newline>    C\<newline>  D\<newline> E''))) = 3
   \<and> wf_graph (parseTextMindMap (js ''A\<newline>  B\<newline>    C\<newline>  D\<newline> E''))"
proof -
  have "length (mm_edges (parseTextMindMap (js ''A\<newline>  B\<newline>    C\<newline>  D\<newline> E''))) = 3"
    by (simp add: js_eval mm_eval)
  then show ?thesis
    using parseTextMindMap_wf_graph [of "js ''A\<newline>  B\<newline>    C\<newline>  D\<newline> E''"] by simp
qed

text \<open>
  C7. For the text \<open>A\<close>, \<open>B\<close> (two spaces), \<open>C\<close> (four), \<open>D\<close> (two), \<open>E\<close> (one space), one
  per line, the grammar gives the five nodes \<open>node-0\<close> \<dots> \<open>node-4\<close> with these labels and
  exactly the edges A to B, B to C and A to D; no edge ends in the node of E, whose depth is 0.
\<close>

theorem outline_example_edges:
  "map (\<lambda>n. (node_label n, node_id n, depth n))
       (mm_nodes (parseTextMindMap (js ''A\<newline>  B\<newline>    C\<newline>  D\<newline> E''))) =
     [(js ''A'', js ''node-0'', 0), (js ''B'', js ''node-1'', 1), (js ''C'', js ''node-2'', 2),
      (js ''D'', js ''node-3'', 1), (js ''E'', js ''node-4'', 0)]
   \<and> links (parseTextMindMap (js ''A\<newline>  B\<newline>    C\<newline>  D\<newline> E'')) =
     [(js ''node-0'', js ''node-1''), (js ''node-1'', js ''node-2''), (js ''node-0'', js ''node-3'')]
   \<and> incoming (parseTextMindMap (js ''A\<newline>  B\<newline>    C\<newline>  D\<newline> E'')) (js ''node-4'') = []"
  by (simp add: js_eval mm_eval)

text \<open>
  C2. The parent invariant fails on the code. In the text \<open>A\<close>, \<open>B\<close> (depth 1), \<open>C\<close>
  (depth 2), \<open>D\<close> (depth 1), \<open>E\<close> (depth 2) the nearest node of depth 1 before \<open>E\<close> is
  \<open>D\<close> (\<open>node-3\<close>), but the one edge into \<open>E\<close> (\<open>node-4\<close>) comes from \<open>B\<close> (\<open>node-1\<close>):
  after the dedent to \<open>D\<close> the stack is cut to \<open>level + 1\<close> entries and \<open>D\<close> is pushed
  behind \<open>B\<close> instead of taking its place. The push has a second effect: a line that is
  two levels deeper than the line before it (\<open>A\<close>, then \<open>C\<close> with four spaces) lands at
  the stack index of its own parent and gets an edge from itself.
\<close>

theorem reindent_parent_is_stale:
  "map (\<lambda>n. (node_label n, node_id n, depth n))
       (mm_nodes (parseTextMindMap (js ''A\<newline>  B\<newline>    C\<newline>  D\<newline>    E''))) =
     [(js ''A'', js ''node-0'', 0), (js ''B'', js ''node-1'', 1), (js ''C'', js ''node-2'', 2),
      (js ''D'', js ''node-3'', 1), (js ''E'', js ''node-4'', 2)]
   \<and> nearest_above (mm_nodes (parseTextMindMap (js ''A\<newline>  B\<newline>    C\<newline>  D\<newline>    E''))) 4
       = Some (js ''node-3'')
   \<and> incoming (parseTextMindMap (js ''A\<newline>  B\<newline>    C\<newline>  D\<newline>    E'')) (js ''node-4'')
       = [js ''node-1'']
   \<and> \<not> parent_invariant (parseTextMindMap (js ''A\<newline>  B\<newline>    C\<newline>  D\<newline>    E''))
   \<and> links (parseTextMindMap (js ''A\<newline>    C'')) = [(js ''node-1'', js ''node-1'')]"
  by (simp add: js_eval mm_eval)

section \<open>The matcher: general lemmas\<close>

lemma search_Some:
  "search ml e l r = Some (b, m, a, g) \<Longrightarrow>
     \<exists>l0 r0 l'. rmatch ml e (l0, r0, []) \<noteq> [] \<and> hd (rmatch ml e (l0, r0, [])) = (l', a, g)
        \<and> m = take (length r0 - length a) r0 \<and> b = rev l0 \<and> rev l0 @ r0 = rev l @ r"
proof (induction r arbitrary: l)
  case Nil
  then obtain l' xs where "rmatch ml e (l, [], []) = (l', a, g) # xs" and "m = []" and "b = rev l"
    by (auto split: list.splits)
  then have "rmatch ml e (l, [], []) \<noteq> [] \<and> hd (rmatch ml e (l, [], [])) = (l', a, g)
        \<and> m = take (length ([]::jsstring) - length a) [] \<and> b = rev l \<and> rev l @ [] = rev l @ []"
    by simp
  then show ?case by blast
next
  case (Cons c r)
  show ?case
  proof (cases "rmatch ml e (l, c # r, [])")
    case Nil
    with Cons.prems have "search ml e (c # l) r = Some (b, m, a, g)" by simp
    from Cons.IH [OF this] show ?thesis by auto
  next
    case (Cons x xs)
    with Cons.prems obtain l' where
      "rmatch ml e (l, c # r, []) = (l', a, g) # xs"
      "m = take (length (c # r) - length a) (c # r)" "b = rev l"
      by (cases x) auto
    then have "rmatch ml e (l, c # r, []) \<noteq> [] \<and> hd (rmatch ml e (l, c # r, [])) = (l', a, g)
        \<and> m = take (length (c # r) - length a) (c # r) \<and> b = rev l \<and> rev l @ c # r = rev l @ c # r"
      by simp
    then show ?thesis by blast
  qed
qed

section \<open>Quiz text grammar: theorems\<close>

lemma rmatch_letter_re:
  "rmatch ml letter_re (l0, r0, g0) = x # xs \<Longrightarrow>
     \<exists>c r'. r0 = c # r' \<and> is_letter_ad c \<and> x = (c # l0, r', g0)"
  by (cases r0) (auto simp: letter_re_def seqs_def split: if_splits)

lemma answer_letter_range:
  assumes "answer_letter line = Some k"
  shows "0 \<le> k \<and> k \<le> 3"
proof -
  from assms obtain b m a g c cs where
    ex: "re_exec False letter_re (answer_text line) = Some (b, m, a, g)" and
    m: "m = c # cs" and k: "k = int (to_upper c) - 65"
    by (auto simp: answer_letter_def split: option.splits list.splits)
  from search_Some [OF ex [unfolded re_exec_def]] obtain l0 r0 l' where
    ne: "rmatch False letter_re (l0, r0, []) \<noteq> []" and
    hd: "hd (rmatch False letter_re (l0, r0, [])) = (l', a, g)" and
    mm: "m = take (length r0 - length a) r0"
    by blast
  from ne obtain x xs where xs: "rmatch False letter_re (l0, r0, []) = x # xs"
    by (cases "rmatch False letter_re (l0, r0, [])") auto
  from rmatch_letter_re [OF xs] obtain c' r' where
    r0: "r0 = c' # r'" and ad: "is_letter_ad c'" and x: "x = (c' # l0, r', [])"
    by blast
  from hd xs x have "a = r'" by simp
  with mm r0 have "m = [c']" by simp
  with m have "c = c'" by simp
  with ad k show ?thesis
    by (auto simp: is_letter_ad_def to_upper_def is_lower_def)
qed




lemma resolved_letters_Cons:
  "resolved_letters (l # ls) =
     (if kind_of (trim l) = AnswerLine
      then (case answer_letter (trim l) of None \<Rightarrow> resolved_letters ls
            | Some k \<Rightarrow> k # resolved_letters ls)
      else resolved_letters ls)"
  by (simp add: resolved_letters_def List.map_filter_simps split: option.splits)

lemma quiz_line_correctAnswer:
  "correctAnswer (quiz_line q l) =
     (if kind_of (trim l) = AnswerLine
      then (case answer_letter (trim l) of None \<Rightarrow> correctAnswer q | Some k \<Rightarrow> k)
      else correctAnswer q)"
  by (auto simp: quiz_line_def Let_def split: line_kind.splits option.splits)

lemma quiz_fold_resolved:
  "correctAnswer (foldl quiz_line q ls) =
     (if resolved_letters ls = [] then correctAnswer q else last (resolved_letters ls))"
proof (induction ls arbitrary: q)
  case Nil
  then show ?case by (simp add: resolved_letters_def List.map_filter_simps)
next
  case (Cons l ls)
  show ?case
    by (simp add: Cons.IH quiz_line_correctAnswer resolved_letters_Cons split: option.splits)
qed

lemma resolved_letters_Nil: "resolved_letters [] = []"
  by (simp add: resolved_letters_def List.map_filter_simps)

lemma resolved_letters_range: "k \<in> set (resolved_letters ls) \<Longrightarrow> 0 \<le> k \<and> k \<le> 3"
proof (induction ls)
  case Nil
  then show ?case by (simp add: resolved_letters_Nil)
next
  case (Cons l ls)
  then show ?case
    by (auto simp: resolved_letters_Cons split: if_splits option.splits
             dest!: answer_letter_range)
qed

lemma quiz_section_resolved:
  assumes "q \<in> set (quiz_section section)"
  shows "correctAnswer q =
           (if resolved_letters (nonblank (split_nl section)) = [] then 0
            else last (resolved_letters (nonblank (split_nl section))))"
proof -
  let ?ls = "nonblank (split_nl section)"
  let ?f = "foldl quiz_line quiz_init ?ls"
  have f: "correctAnswer ?f = (if resolved_letters ?ls = [] then - 1 else last (resolved_letters ?ls))"
    by (simp add: quiz_fold_resolved quiz_init_def)
  have ne: "resolved_letters ?ls \<noteq> [] \<Longrightarrow> last (resolved_letters ?ls) \<noteq> - 1"
    using resolved_letters_range [OF last_in_set, of ?ls] by fastforce
  from assms have q: "q = (if correctAnswer ?f = - 1 then ?f\<lparr>correctAnswer := 0\<rparr> else ?f)"
    by (auto simp: quiz_section_def Let_def split: if_splits)
  show ?thesis
  proof (cases "resolved_letters ?ls = []")
    case True
    with q f show ?thesis by simp
  next
    case False
    with q f ne show ?thesis by simp
  qed
qed

section \<open>Flashcards: lemmas\<close>

lemma trim_eq_Nil: "trim s = [] \<longleftrightarrow> (\<forall>c \<in> set s. is_space c)"
proof (cases "dropWhile is_space s = []")
  case True
  have "trim s = []" unfolding trim_def True by simp
  moreover from True have "\<forall>c \<in> set s. is_space c" by (simp only: dropWhile_eq_Nil_conv)
  ultimately show ?thesis by simp
next
  case False
  then have "\<not> is_space (hd (dropWhile is_space s))" by (rule hd_dropWhile)
  moreover have "hd (dropWhile is_space s) \<in> set (rev (dropWhile is_space s))"
    using False by simp
  ultimately have "dropWhile is_space (rev (dropWhile is_space s)) \<noteq> []"
    unfolding dropWhile_eq_Nil_conv by blast
  then have "trim s \<noteq> []"
    unfolding trim_def by (simp del: dropWhile_eq_Nil_conv)
  moreover from False have "\<not> (\<forall>c \<in> set s. is_space c)"
    by (simp only: dropWhile_eq_Nil_conv not_False_eq_True)
  ultimately show ?thesis by blast
qed

lemma trim_nonempty: "trim s \<noteq> [] \<longleftrightarrow> (\<exists>c \<in> set s. \<not> is_space c)"
  by (simp add: trim_eq_Nil)

lemma trim_trim_nonempty:
  assumes ne: "trim s \<noteq> []"
  shows "trim (trim s) \<noteq> []"
proof -
  let ?d = "dropWhile is_space (rev (dropWhile is_space s))"
  from ne have d: "?d \<noteq> []" by (simp add: trim_def)
  then have "\<not> is_space (hd ?d)" by (rule hd_dropWhile)
  moreover have "hd ?d \<in> set (trim s)" using d by (simp add: trim_def)
  ultimately show ?thesis unfolding trim_nonempty by blast
qed

lemma solid_trim: "solid (trim s)"
proof (cases "trim s = []")
  case True
  then show ?thesis by (simp add: solid_def)
next
  case False
  from trim_trim_nonempty [OF False] show ?thesis
    unfolding solid_def trim_nonempty by blast
qed

lemma solid_nonempty_trim: "solid s \<Longrightarrow> s \<noteq> [] \<Longrightarrow> trim (trim s) \<noteq> []"
  by (rule trim_trim_nonempty) (simp add: solid_def trim_nonempty)

lemma nonblank_solid: "l \<in> set (nonblank ls) \<Longrightarrow> \<exists>c \<in> set l. \<not> is_space c"
  by (simp add: nonblank_def trim_nonempty)

lemma hd_concat_map:
  "concat (map f xs) \<noteq> [] \<Longrightarrow> \<exists>x \<in> set xs. f x \<noteq> [] \<and> hd (concat (map f xs)) = hd (f x)"
proof (induction xs)
  case Nil
  then show ?case by simp
next
  case (Cons a xs)
  show ?case
  proof (cases "f a = []")
    case True
    with Cons show ?thesis by simp
  next
    case False
    then show ?thesis by simp
  qed
qed

lemma rmatch_star_step:
  "P c \<Longrightarrow> rmatch ml (Star (Chr P)) (l, c # r, g) =
     rmatch ml (Star (Chr P)) (c # l, r, g) @ [(l, c # r, g)]"
  by (subst rmatch.simps(5)) (simp del: rmatch.simps(5))

lemma rmatch_star_stop:
  "r = [] \<or> \<not> P (hd r) \<Longrightarrow> rmatch ml (Star (Chr P)) (l, r, g) = [(l, r, g)]"
  by (subst rmatch.simps(5)) (cases r; simp del: rmatch.simps(5))

lemma rmatch_star_hd:
  "rmatch ml (Star (Chr P)) (l, r, g) \<noteq> []
   \<and> fst (snd (hd (rmatch ml (Star (Chr P)) (l, r, g)))) = dropWhile P r"
proof (induction r arbitrary: l)
  case Nil
  show ?case by (simp add: rmatch_star_stop del: rmatch.simps(5))
next
  case (Cons c r)
  show ?case
  proof (cases "P c")
    case True
    with Cons [of "c # l"] show ?thesis by (simp add: rmatch_star_step del: rmatch.simps(5))
  next
    case False
    then show ?thesis by (simp add: rmatch_star_stop del: rmatch.simps(5))
  qed
qed

lemma concat_singletons: "concat (map (\<lambda>x. [x]) xs) = xs"
  by (induction xs) simp_all

lemma rmatch_Eps_fun: "rmatch ml Eps = (\<lambda>x. [x])"
  by (rule ext) simp

lemma rmatch_seq_eps: "rmatch ml (Seq a Eps) st = rmatch ml a st"
  by (simp add: rmatch_Eps_fun concat_singletons)

lemma ends_solid_star: "ends_solid (hd (rmatch ml (Seq (Star ws) Eps) st))"
proof -
  obtain l r g where st: "st = (l, r, g)" by (cases st) auto
  have "fst (snd (hd (rmatch ml (Star ws) (l, r, g)))) = dropWhile is_space r"
    using rmatch_star_hd [of ml is_space l r g] by (simp add: ws_def)
  then show ?thesis
    unfolding rmatch_seq_eps st ends_solid_def
    by (metis hd_dropWhile)
qed

lemma ends_solid_seq:
  assumes "\<And>st. rmatch ml b st \<noteq> [] \<Longrightarrow> ends_solid (hd (rmatch ml b st))"
    and "rmatch ml (Seq a b) st \<noteq> []"
  shows "ends_solid (hd (rmatch ml (Seq a b) st))"
proof -
  from assms(2) have "concat (map (rmatch ml b) (rmatch ml a st)) \<noteq> []" by simp
  from hd_concat_map [OF this] obtain x where
    "rmatch ml b x \<noteq> []" "hd (rmatch ml (Seq a b) st) = hd (rmatch ml b x)"
    by auto
  with assms(1) show ?thesis by simp
qed

lemma ends_solid_label:
  assumes "rmatch ml (seqs [Bol, x, y, Star ws]) st \<noteq> []"
  shows "ends_solid (hd (rmatch ml (seqs [Bol, x, y, Star ws]) st))"
proof -
  have sq: "seqs [Bol, x, y, Star ws] = Seq Bol (Seq x (Seq y (Seq (Star ws) Eps)))"
    by (simp add: seqs_def)
  have 1: "\<And>st. rmatch ml (Seq (Star ws) Eps) st \<noteq> [] \<Longrightarrow>
             ends_solid (hd (rmatch ml (Seq (Star ws) Eps) st))"
    by (rule ends_solid_star)
  have 2: "\<And>st. rmatch ml (Seq y (Seq (Star ws) Eps)) st \<noteq> [] \<Longrightarrow>
             ends_solid (hd (rmatch ml (Seq y (Seq (Star ws) Eps)) st))"
    by (rule ends_solid_seq [OF 1])
  have 3: "\<And>st. rmatch ml (Seq x (Seq y (Seq (Star ws) Eps))) st \<noteq> [] \<Longrightarrow>
             ends_solid (hd (rmatch ml (Seq x (Seq y (Seq (Star ws) Eps))) st))"
    by (rule ends_solid_seq [OF 2])
  from assms have "rmatch ml (Seq Bol (Seq x (Seq y (Seq (Star ws) Eps)))) st \<noteq> []"
    unfolding sq .
  from ends_solid_seq [of ml "Seq x (Seq y (Seq (Star ws) Eps))" Bol st, OF 3 this]
  show ?thesis unfolding sq .
qed

lemma anchored_before:
  assumes "re_exec False (Seq Bol e) s = Some (b, m, a, g)"
  shows "b = [] \<and> rmatch False (Seq Bol e) ([], s, []) \<noteq> []
         \<and> a = fst (snd (hd (rmatch False (Seq Bol e) ([], s, []))))"
proof -
  from search_Some [OF assms [unfolded re_exec_def]] obtain l0 r0 l' where
    ne: "rmatch False (Seq Bol e) (l0, r0, []) \<noteq> []" and
    hd: "hd (rmatch False (Seq Bol e) (l0, r0, [])) = (l', a, g)" and
    b: "b = rev l0" and s: "rev l0 @ r0 = rev [] @ s"
    by blast
  have "rmatch False (Seq Bol e) (l0, r0, []) = [] \<or> l0 = []"
    by (cases "l0 = []") simp_all
  with ne have "l0 = []" by blast
  with ne hd b s show ?thesis by (simp del: rmatch.simps)
qed

lemma solid_strip_label:
  assumes "solid l"
  shows "solid (remove_first False (seqs [Bol, x, y, Star ws]) l)"
proof (cases "re_exec False (seqs [Bol, x, y, Star ws]) l")
  case None
  with assms show ?thesis by (simp add: remove_first_def)
next
  case (Some r)
  then obtain b m a g where r: "re_exec False (seqs [Bol, x, y, Star ws]) l = Some (b, m, a, g)"
    by (cases r) auto
  have sq: "seqs [Bol, x, y, Star ws] = Seq Bol (seqs [x, y, Star ws])"
    by (simp add: seqs_def)
  from anchored_before [OF r [unfolded sq]] have
    b: "b = []" and ne: "rmatch False (seqs [Bol, x, y, Star ws]) ([], l, []) \<noteq> []"
    and a: "a = fst (snd (hd (rmatch False (seqs [Bol, x, y, Star ws]) ([], l, []))))"
    unfolding sq by blast+
  from ends_solid_label [OF ne] a have "a = [] \<or> \<not> is_space (hd a)"
    by (simp add: ends_solid_def)
  then have "solid a" by (cases a) (auto simp: solid_def)
  with r b show ?thesis by (simp add: remove_first_def)
qed

lemma solid_append_line:
  "\<exists>c \<in> set l. \<not> is_space c \<Longrightarrow> solid (s @ 10 # l)"
  by (auto simp: solid_def)

lemma solid_take_back:
  "solid b \<Longrightarrow> \<forall>l \<in> set ls. \<exists>c \<in> set l. \<not> is_space c \<Longrightarrow> solid (take_back b ls)"
  by (induction ls arbitrary: b) (simp_all add: solid_append_line)

lemma solid_take_front:
  "solid f \<Longrightarrow> \<forall>l \<in> set ls. \<exists>c \<in> set l. \<not> is_space c \<Longrightarrow>
   solid (fst (take_front f ls)) \<and> solid (snd (take_front f ls))"
proof (induction ls arbitrary: f)
  case Nil
  then show ?case by (simp add: solid_def)
next
  case (Cons l ls)
  then have l: "solid l" by (auto simp: solid_def)
  show ?case
  proof (cases "re_test False (a_label Eps) l")
    case True
    have "solid (remove_first False (a_label (Star ws)) l)"
      unfolding a_label_def using l by (rule solid_strip_label)
    with True Cons.prems show ?thesis
      by (simp add: solid_take_back)
  next
    case False
    with Cons.IH [of "f @ 10 # l"] Cons.prems show ?thesis
      by (simp add: solid_append_line)
  qed
qed

lemma solid_find_question:
  "\<forall>l \<in> set ls. \<exists>c \<in> set l. \<not> is_space c \<Longrightarrow>
   solid (fst (find_question ls)) \<and> solid (snd (find_question ls))"
proof (induction ls)
  case Nil
  then show ?case by (simp add: solid_def)
next
  case (Cons l ls)
  have s: "solid (remove_first False (q_label (Star ws)) (trim l))"
    unfolding q_label_def by (rule solid_strip_label [OF solid_trim])
  from Cons.prems have ls: "\<forall>l \<in> set ls. \<exists>c \<in> set l. \<not> is_space c" by simp
  show ?case
  proof (cases "re_test False (q_label Eps) (trim l)")
    case True
    with solid_take_front [OF s ls] show ?thesis by simp
  next
    case False
    with Cons.IH [OF ls] show ?thesis by simp
  qed
qed

lemma qa_card_solid:
  assumes "c \<in> set (qa_card section)"
  shows "trim (card_front c) \<noteq> [] \<and> trim (card_back c) \<noteq> []"
proof -
  let ?ls = "nonblank (split_nl section)"
  obtain f b where fq: "find_question ?ls = (f, b)" by (cases "find_question ?ls") auto
  have nb: "\<forall>l \<in> set ?ls. \<exists>c \<in> set l. \<not> is_space c"
    using nonblank_solid by blast
  from solid_find_question [OF nb] fq have s: "solid f" "solid b" by simp_all
  have q: "qa_card section =
      (if 2 \<le> length ?ls \<and> f \<noteq> [] \<and> b \<noteq> []
       then [\<lparr>card_front = trim f, card_back = trim b\<rparr>] else [])"
    by (simp add: qa_card_def Let_def fq)
  show ?thesis
  proof (cases "2 \<le> length ?ls \<and> f \<noteq> [] \<and> b \<noteq> []")
    case True
    with assms q have "c = \<lparr>card_front = trim f, card_back = trim b\<rparr>" by simp
    with True s show ?thesis by (simp add: solid_nonempty_trim)
  next
    case False
    with assms q show ?thesis by simp
  qed
qed

lemma set_join_first: "set x \<subseteq> set (join sep (x # xs))"
  by (cases xs) auto

lemma numbered_card_back:
  assumes "c \<in> set (numbered_card section)"
  shows "trim (card_back c) \<noteq> []"
proof -
  from assms have "\<exists>l0 l1 ls. nonblank (split_nl section) = l0 # l1 # ls
      \<and> card_back c = join [10] (l1 # ls)"
    by (auto simp: numbered_card_def split: list.splits) metis
  then obtain l0 l1 ls where
    n: "nonblank (split_nl section) = l0 # l1 # ls" and c: "card_back c = join [10] (l1 # ls)"
    by blast
  from n have "l1 \<in> set (nonblank (split_nl section))" by simp
  from nonblank_solid [OF this] obtain x where "x \<in> set l1" "\<not> is_space x" by blast
  with set_join_first [of l1 "[10]" ls] c show ?thesis
    unfolding trim_nonempty by auto
qed

section \<open>Quiz session: theorems\<close>

lemma session_inv_init: "session_inv qs session_init"
  by (simp add: session_inv_def session_init_def)

lemma session_inv_handle:
  assumes "session_inv qs st" and "handle qs st e = Inr st'"
  shows "session_inv qs st'"
proof (cases e)
  case (Select i)
  with assms show ?thesis
    by (cases "showResult st") (auto simp: session_inv_def handleAnswerSelect_def)
next
  case Submit
  with assms show ?thesis
    by (auto simp: session_inv_def handleSubmitAnswer_def Let_def
             split: option.splits if_splits)
next
  case Next
  with assms show ?thesis
    by (auto simp: session_inv_def handleNextQuestion_def split: if_splits)
next
  case Restart
  with assms show ?thesis
    by (auto simp: handleRestart_def session_inv_init)
qed

lemma session_inv_run:
  "session_inv qs st \<Longrightarrow> run qs st evs = Inr st' \<Longrightarrow> session_inv qs st'"
proof (induction evs arbitrary: st)
  case Nil
  then show ?case by simp
next
  case (Cons e evs)
  then show ?case
    by (auto split: sum.splits dest: session_inv_handle)
qed

lemma handle_total:
  assumes "session_inv qs st" and "qs \<noteq> []" and "JNull \<notin> set qs"
  shows "\<exists>st'. handle qs st e = Inr st'"
proof (cases e)
  case Submit
  from assms have "currentIndex st < length qs" by (simp add: session_inv_def)
  moreover from this assms(3) have "qs ! currentIndex st \<noteq> JNull" by (metis nth_mem)
  ultimately show ?thesis
    using Submit by (auto simp: handleSubmitAnswer_def Let_def split: option.splits)
qed auto

lemma run_total:
  "session_inv qs st \<Longrightarrow> qs \<noteq> [] \<Longrightarrow> JNull \<notin> set qs \<Longrightarrow> \<exists>st'. run qs st evs = Inr st'"
proof (induction evs arbitrary: st)
  case Nil
  then show ?case by simp
next
  case (Cons e evs)
  from handle_total [OF Cons.prems] obtain st1 where h: "handle qs st e = Inr st1" by blast
  from session_inv_handle [OF Cons.prems(1) h] have "session_inv qs st1" .
  from Cons.IH [OF this Cons.prems(2,3)] h show ?case by simp
qed

lemma submit_delta:
  assumes "handleSubmitAnswer qs st = Inr st'"
  shows "score st' = score st +
           (if (\<exists>sel. selectedAnswer st = Some sel
                  \<and> is_index (get_prop (qs ! currentIndex st) (js ''correctAnswer'')) sel)
               \<and> currentIndex st \<notin> set (answeredQuestions st)
            then 1 else 0)"
  using assms
  by (auto simp: handleSubmitAnswer_def Let_def split: option.splits if_splits)

lemma submit_twice:
  assumes "handleSubmitAnswer qs st0 = Inr st1" and "handleSubmitAnswer qs st1 = Inr st2"
  shows "score st2 = score st1"
  using assms
  by (auto simp: handleSubmitAnswer_def Let_def split: option.splits if_splits)

text \<open>
  C6. Submitting an answer adds one to the score exactly when the selection equals the
  current question's \<open>correctAnswer\<close> and the index of the question is not yet in
  \<open>answeredQuestions\<close>, and adds nothing otherwise; a second submit right after a
  submit adds nothing. After every sequence of select,
  submit, next and restart events from the initial state, the score is the number of
  entries of \<open>answeredQuestions\<close> (emptied by a restart), which are pairwise distinct
  indices of questions: each question has contributed at most 1, and the score is at most the
  number of questions. On a non-empty list of questions without \<open>null\<close> no handler throws.
\<close>

theorem quiz_score_counts_once:
  "(handleSubmitAnswer qs st0 = Inr st1 \<longrightarrow>
      score st1 = score st0 +
        (if (\<exists>sel. selectedAnswer st0 = Some sel
               \<and> is_index (get_prop (qs ! currentIndex st0) (js ''correctAnswer'')) sel)
            \<and> currentIndex st0 \<notin> set (answeredQuestions st0)
         then 1 else 0))
   \<and> (run qs session_init evs = Inr st \<longrightarrow>
        score st = length (answeredQuestions st) \<and> distinct (answeredQuestions st)
        \<and> set (answeredQuestions st) \<subseteq> {..<length qs} \<and> score st \<le> length qs)
   \<and> (handleSubmitAnswer qs st0 = Inr st1 \<and> handleSubmitAnswer qs st1 = Inr st2 \<longrightarrow>
        score st2 = score st1)
   \<and> (qs \<noteq> [] \<and> JNull \<notin> set qs \<longrightarrow> (\<exists>st'. run qs session_init evs = Inr st'))"
proof (intro conjI impI)
  assume "handleSubmitAnswer qs st0 = Inr st1"
  then show "score st1 = score st0 +
        (if (\<exists>sel. selectedAnswer st0 = Some sel
               \<and> is_index (get_prop (qs ! currentIndex st0) (js ''correctAnswer'')) sel)
            \<and> currentIndex st0 \<notin> set (answeredQuestions st0)
         then 1 else 0)"
    by (rule submit_delta)
next
  assume r: "run qs session_init evs = Inr st"
  from session_inv_run [OF session_inv_init r]
  have inv: "session_inv qs st" .
  then show "score st = length (answeredQuestions st)" "distinct (answeredQuestions st)"
    "set (answeredQuestions st) \<subseteq> {..<length qs}"
    by (simp_all add: session_inv_def)
  from inv have "card (set (answeredQuestions st)) \<le> card {..<length qs}"
    unfolding session_inv_def by (intro card_mono) auto
  with inv show "score st \<le> length qs"
    by (simp add: session_inv_def distinct_card)
next
  assume "handleSubmitAnswer qs st0 = Inr st1 \<and> handleSubmitAnswer qs st1 = Inr st2"
  then show "score st2 = score st1"
    using submit_twice by blast
next
  assume "qs \<noteq> [] \<and> JNull \<notin> set qs"
  then show "\<exists>st'. run qs session_init evs = Inr st'"
    using run_total [OF session_inv_init] by blast
qed

theorem quiz_score_counts_once_witness:
  "handleSubmitAnswer
       [question_obj \<lparr>question = js ''Q?'', options = [js ''x'', js ''y''], correctAnswer = 1, explanation = []\<rparr>]
       (session_init\<lparr>selectedAnswer := Some 1\<rparr>)
     = Inr (session_init\<lparr>selectedAnswer := Some 1, showResult := True, score := 1, answeredQuestions := [0]\<rparr>)
   \<and> handleSubmitAnswer
       [question_obj \<lparr>question = js ''Q?'', options = [js ''x'', js ''y''], correctAnswer = 1, explanation = []\<rparr>]
       (session_init\<lparr>selectedAnswer := Some 1, showResult := True, score := 1, answeredQuestions := [0]\<rparr>)
     = Inr (session_init\<lparr>selectedAnswer := Some 1, showResult := True, score := 1, answeredQuestions := [0]\<rparr>)
   \<and> run [question_obj \<lparr>question = js ''Q?'', options = [js ''x'', js ''y''], correctAnswer = 1, explanation = []\<rparr>]
         session_init [Select 1, Submit, Submit, Next, Submit]
     = Inr \<lparr>currentIndex = 0, selectedAnswer = Some 1, showResult = True, score = 1,
            completed = True, answeredQuestions = [0]\<rparr>
   \<and> [question_obj \<lparr>question = js ''Q?'', options = [js ''x'', js ''y''], correctAnswer = 1, explanation = []\<rparr>] \<noteq> []
   \<and> JNull \<notin> set [question_obj \<lparr>question = js ''Q?'', options = [js ''x'', js ''y''], correctAnswer = 1, explanation = []\<rparr>]
   \<and> score \<lparr>currentIndex = 0, selectedAnswer = Some 1, showResult = True, score = 1,
            completed = True, answeredQuestions = [0]\<rparr> \<le> 1"
proof -
  let ?qs = "[question_obj \<lparr>question = js ''Q?'', options = [js ''x'', js ''y''], correctAnswer = 1, explanation = []\<rparr>]"
  let ?st = "\<lparr>currentIndex = 0, selectedAnswer = Some 1, showResult = True, score = 1,
            completed = True, answeredQuestions = [0]\<rparr>"
  have a: "handleSubmitAnswer ?qs (session_init\<lparr>selectedAnswer := Some 1\<rparr>)
     = Inr (session_init\<lparr>selectedAnswer := Some 1, showResult := True, score := 1, answeredQuestions := [0]\<rparr>)"
    by (simp add: js_def viewer_eval session_eval)
  have b: "run ?qs session_init [Select 1, Submit, Submit, Next, Submit] = Inr ?st"
    by (simp add: js_def viewer_eval session_eval)
  have c: "JNull \<notin> set ?qs" by (simp add: question_obj_def)
  have d: "handleSubmitAnswer ?qs
       (session_init\<lparr>selectedAnswer := Some 1, showResult := True, score := 1, answeredQuestions := [0]\<rparr>)
     = Inr (session_init\<lparr>selectedAnswer := Some 1, showResult := True, score := 1, answeredQuestions := [0]\<rparr>)"
    by (simp add: js_def viewer_eval session_eval)
  from quiz_score_counts_once [of ?qs "session_init\<lparr>selectedAnswer := Some 1\<rparr>"
      "session_init\<lparr>selectedAnswer := Some 1, showResult := True, score := 1, answeredQuestions := [0]\<rparr>"
      "[Select 1, Submit, Submit, Next, Submit]" ?st
      "session_init\<lparr>selectedAnswer := Some 1, showResult := True, score := 1, answeredQuestions := [0]\<rparr>"]
    a b c d
  show ?thesis by simp
qed

section \<open>Quiz answers: theorems\<close>

text \<open>
  C5. In the quiz text grammar the line \<open>Answer: B\<close> is an answer line that names the
  index 1, and the line \<open>Correct Answer: **C**\<close> is an answer line that names the index 2.
  Every emitted block has as \<open>correctAnswer\<close> the index named by the last of its answer
  lines in which a stand-alone letter is found, and 0 when there is no such line.
\<close>

theorem quiz_answer_resolution:
  "kind_of (js ''Answer: B'') = AnswerLine \<and> answer_letter (js ''Answer: B'') = Some 1
   \<and> kind_of (js ''Correct Answer: **C**'') = AnswerLine
   \<and> answer_letter (js ''Correct Answer: **C**'') = Some 2
   \<and> (\<forall>q \<in> set (quiz_section section).
         correctAnswer q =
           (if resolved_letters (nonblank (split_nl section)) = [] then 0
            else last (resolved_letters (nonblank (split_nl section)))))"
proof (intro conjI ballI)
  show "kind_of (js ''Answer: B'') = AnswerLine" "answer_letter (js ''Answer: B'') = Some 1"
    by (simp_all add: js_eval quiz_eval)
  show "kind_of (js ''Correct Answer: **C**'') = AnswerLine"
    "answer_letter (js ''Correct Answer: **C**'') = Some 2"
    by (simp_all add: js_eval quiz_eval)
next
  fix q assume "q \<in> set (quiz_section section)"
  then show "correctAnswer q =
           (if resolved_letters (nonblank (split_nl section)) = [] then 0
            else last (resolved_letters (nonblank (split_nl section))))"
    by (rule quiz_section_resolved)
qed

text \<open>The theorem at three blocks with a question and two or three options: one with the
  line \<open>Answer: B\<close>, one with \<open>Correct Answer: **C**\<close>, and one with \<open>Answer: none\<close>, in
  which no letter is found.\<close>

theorem quiz_answer_resolution_witness:
  "resolved_letters (nonblank (split_nl (js ''1. Q?\<newline>A) x\<newline>B) y\<newline>Answer: B''))) = [1]
   \<and> parseTextQuiz (js ''1. Q?\<newline>A) x\<newline>B) y\<newline>Answer: B'') =
     [\<lparr>question = js ''Q?'', options = [js ''x'', js ''y''], correctAnswer = 1, explanation = []\<rparr>]
   \<and> resolved_letters
        (nonblank (split_nl (js ''1. Q?\<newline>A) x\<newline>B) y\<newline>C) z\<newline>Correct Answer: **C**''))) = [2]
   \<and> parseTextQuiz (js ''1. Q?\<newline>A) x\<newline>B) y\<newline>C) z\<newline>Correct Answer: **C**'') =
     [\<lparr>question = js ''Q?'', options = [js ''x'', js ''y'', js ''z''], correctAnswer = 2,
       explanation = []\<rparr>]
   \<and> map (\<lambda>l. kind_of (trim l))
         (nonblank (split_nl (js ''1. Q?\<newline>A) x\<newline>B) y\<newline>Answer: none''))) =
       [QuestionLine, OptionLine, OptionLine, AnswerLine]
   \<and> resolved_letters (nonblank (split_nl (js ''1. Q?\<newline>A) x\<newline>B) y\<newline>Answer: none''))) = []
   \<and> map question (quiz_section (js ''1. Q?\<newline>A) x\<newline>B) y\<newline>Answer: none'')) = [js ''Q?'']
   \<and> map correctAnswer (quiz_section (js ''1. Q?\<newline>A) x\<newline>B) y\<newline>Answer: none'')) = [0]"
proof -
  have r1: "resolved_letters (nonblank (split_nl (js ''1. Q?\<newline>A) x\<newline>B) y\<newline>Answer: B''))) = [1]"
    by (simp add: js_eval quiz_eval resolved_letters_def List.map_filter_simps)
  have p1: "parseTextQuiz (js ''1. Q?\<newline>A) x\<newline>B) y\<newline>Answer: B'') =
     [\<lparr>question = js ''Q?'', options = [js ''x'', js ''y''], correctAnswer = 1, explanation = []\<rparr>]"
    by (simp add: js_eval quiz_eval)
  have r2: "resolved_letters
        (nonblank (split_nl (js ''1. Q?\<newline>A) x\<newline>B) y\<newline>C) z\<newline>Correct Answer: **C**''))) = [2]"
    by (simp add: js_eval quiz_eval resolved_letters_def List.map_filter_simps)
  have p2: "parseTextQuiz (js ''1. Q?\<newline>A) x\<newline>B) y\<newline>C) z\<newline>Correct Answer: **C**'') =
     [\<lparr>question = js ''Q?'', options = [js ''x'', js ''y'', js ''z''], correctAnswer = 2,
       explanation = []\<rparr>]"
    by (simp add: js_eval quiz_eval)
  have k: "map (\<lambda>l. kind_of (trim l))
         (nonblank (split_nl (js ''1. Q?\<newline>A) x\<newline>B) y\<newline>Answer: none''))) =
       [QuestionLine, OptionLine, OptionLine, AnswerLine]"
    by (simp add: js_eval quiz_eval)
  have r3: "resolved_letters (nonblank (split_nl (js ''1. Q?\<newline>A) x\<newline>B) y\<newline>Answer: none''))) = []"
    by (simp add: js_eval quiz_eval resolved_letters_def List.map_filter_simps)
  have q3: "map question (quiz_section (js ''1. Q?\<newline>A) x\<newline>B) y\<newline>Answer: none'')) = [js ''Q?'']"
    by (simp add: js_eval quiz_eval)
  from quiz_answer_resolution [of "js ''1. Q?\<newline>A) x\<newline>B) y\<newline>Answer: none''"] r3
  have "\<forall>q \<in> set (quiz_section (js ''1. Q?\<newline>A) x\<newline>B) y\<newline>Answer: none'')). correctAnswer q = 0"
    by simp
  moreover from q3 obtain q where
    "quiz_section (js ''1. Q?\<newline>A) x\<newline>B) y\<newline>Answer: none'') = [q]"
    by auto
  ultimately have
    "map correctAnswer (quiz_section (js ''1. Q?\<newline>A) x\<newline>B) y\<newline>Answer: none'')) = [0]"
    by simp
  with r1 p1 r2 p2 k r3 q3 show ?thesis by blast
qed








section \<open>Flashcards and timeline: theorems\<close>

text \<open>
  C9, as stated, fails on the JSON path: the decoded array is returned as it is, so a card
  with an empty front and an empty back is a card of the model.
\<close>

theorem json_card_unchecked:
  \<open>FlashcardsViewer_flashcards (js ''[{"front":"","back":""}]'') =
     [JObj [(js ''front'', JStr []), (js ''back'', JStr [])]]
   \<and> \<not> card_ok (JObj [(js ''front'', JStr []), (js ''back'', JStr [])])\<close>
  by (simp add: js_eval json_eval viewer_eval)

lemma card_ok_obj:
  "card_ok (card_obj c) \<longleftrightarrow> trim (card_front c) \<noteq> [] \<and> trim (card_back c) \<noteq> []"
  by (simp add: card_ok_def card_obj_def get_prop_def js_def)

text \<open>The numbered fallback grammar pushes its card without the test of the primary grammar:
  a block whose first line is only \<open>1.\<close> gives a card with an empty front.\<close>

lemma numbered_card_empty_front:
  "parseTextFlashcards (js ''1.\<newline>foo'') = [\<lparr>card_front = [], card_back = js ''foo''\<rparr>]"
  by (simp add: js_eval quiz_eval card_eval)

text \<open>
  C9, amended. Every card of the primary \<open>Q:\<close>/\<open>A:\<close> grammar has a front and a back that
  are not empty after trimming, and so has the placeholder card; every card of the numbered
  fallback grammar has a back that is not empty after trimming. When the primary grammar
  gives a card, its cards are the result of the text grammar. On the JSON path the elements
  of the decoded array are the cards, as they are.
\<close>

theorem text_cards_nonempty_sides:
  "(\<forall>c \<in> set (qa_cards text). card_ok (card_obj c))
   \<and> (\<forall>c \<in> set (numbered_cards text). trim (card_back c) \<noteq> [])
   \<and> card_ok (card_obj sample_card)
   \<and> (qa_cards text \<noteq> [] \<longrightarrow> parseTextFlashcards text = qa_cards text)
   \<and> (JSON_parse text = Some (JArr xs) \<longrightarrow> FlashcardsViewer_flashcards text = xs)"
proof (intro conjI impI ballI)
  fix c assume "c \<in> set (qa_cards text)"
  then show "card_ok (card_obj c)"
    using qa_card_solid by (auto simp: qa_cards_def card_ok_obj)
next
  fix c assume "c \<in> set (numbered_cards text)"
  then show "trim (card_back c) \<noteq> []"
    using numbered_card_back by (auto simp: numbered_cards_def)
next
  show "card_ok (card_obj sample_card)"
    by (simp add: card_ok_obj sample_card_def js_eval)
next
  assume "qa_cards text \<noteq> []"
  then show "parseTextFlashcards text = qa_cards text"
    by (simp add: parseTextFlashcards_def)
next
  assume "JSON_parse text = Some (JArr xs)"
  then show "FlashcardsViewer_flashcards text = xs"
    by (simp add: FlashcardsViewer_flashcards_def)
qed

theorem text_cards_nonempty_sides_witness:
  \<open>qa_cards (js ''Q: What?\<newline>A: This'') = [\<lparr>card_front = js ''What?'', card_back = js ''This''\<rparr>]
   \<and> numbered_cards (js ''Q: What?\<newline>A: This'') =
       [\<lparr>card_front = js ''Q: What?'', card_back = js ''A: This''\<rparr>]
   \<and> parseTextFlashcards (js ''Q: What?\<newline>A: This'') =
       [\<lparr>card_front = js ''What?'', card_back = js ''This''\<rparr>]
   \<and> card_ok (card_obj \<lparr>card_front = js ''What?'', card_back = js ''This''\<rparr>)
   \<and> trim (js ''A: This'') \<noteq> []
   \<and> JSON_parse (js ''[{"front":"f","back":"b"}]'') =
       Some (JArr [JObj [(js ''front'', JStr (js ''f'')), (js ''back'', JStr (js ''b''))]])
   \<and> FlashcardsViewer_flashcards (js ''[{"front":"f","back":"b"}]'') =
       [JObj [(js ''front'', JStr (js ''f'')), (js ''back'', JStr (js ''b''))]]\<close>
proof -
  have q: "qa_cards (js ''Q: What?\<newline>A: This'') = [\<lparr>card_front = js ''What?'', card_back = js ''This''\<rparr>]"
    by (simp add: js_eval quiz_eval card_eval)
  have n: "numbered_cards (js ''Q: What?\<newline>A: This'') =
       [\<lparr>card_front = js ''Q: What?'', card_back = js ''A: This''\<rparr>]"
    by (simp add: js_eval quiz_eval card_eval)
  have j: \<open>JSON_parse (js ''[{"front":"f","back":"b"}]'') =
       Some (JArr [JObj [(js ''front'', JStr (js ''f'')), (js ''back'', JStr (js ''b''))]])\<close>
    by (simp add: js_eval json_eval)
  from text_cards_nonempty_sides [of "js ''Q: What?\<newline>A: This''" "[]"]
  have a: "parseTextFlashcards (js ''Q: What?\<newline>A: This'') =
       [\<lparr>card_front = js ''What?'', card_back = js ''This''\<rparr>]
   \<and> card_ok (card_obj \<lparr>card_front = js ''What?'', card_back = js ''This''\<rparr>)
   \<and> trim (js ''A: This'') \<noteq> []"
    unfolding q n by simp
  from text_cards_nonempty_sides
         [of _ "[JObj [(js ''front'', JStr (js ''f'')), (js ''back'', JStr (js ''b''))]]"] j
  have b: \<open>FlashcardsViewer_flashcards (js ''[{"front":"f","back":"b"}]'') =
       [JObj [(js ''front'', JStr (js ''f'')), (js ''back'', JStr (js ''b''))]]\<close>
    by blast
  from q n a j b show ?thesis by blast
qed

text \<open>
  C8, as stated, fails: a block whose first line has no date gets the date
  \<open>Date Unknown\<close>, and the placeholder event of an input without events has the date
  \<open>Sample Date\<close>; neither is the string \<open>Unknown\<close>.
\<close>

theorem undated_block_date:
  "parseTextTimeline (js ''Hello'') =
     [\<lparr>ev_date = js ''Date Unknown'', ev_title = js ''Hello'', ev_description = []\<rparr>]
   \<and> parseTextTimeline [] =
     [\<lparr>ev_date = js ''Sample Date'', ev_title = js ''Sample Event'',
       ev_description = js ''Sample Description''\<rparr>]
   \<and> js ''Date Unknown'' \<noteq> js ''Unknown'' \<and> js ''Sample Date'' \<noteq> js ''Unknown''"
  by (simp add: js_eval quiz_eval timeline_eval)

lemma bullet_fold_no_heading:
  "\<forall>l \<in> set ls. \<not> re_test False heading_re (trim l) \<Longrightarrow>
   foldl bullet_line ([], evs) ls =
     ([], evs @ map (\<lambda>l. \<lparr>ev_date = js ''Unknown'',
                            ev_title = (if re_test False tl_bullet_re (trim l)
                                        then remove_first False tl_bullet_re (trim l)
                                        else remove_first False numbering_re (trim l)),
                            ev_description = []\<rparr>)
                    (filter (\<lambda>l. re_test False tl_bullet_re (trim l)
                                 \<or> re_test False numbering_re (trim l)) ls))"
proof (induction ls arbitrary: evs)
  case Nil
  show ?case by simp
next
  case (Cons l ls)
  from Cons.prems have h: "\<not> re_test False heading_re (trim l)"
    and r: "\<forall>l \<in> set ls. \<not> re_test False heading_re (trim l)"
    by simp_all
  show ?case
  proof (cases "re_test False tl_bullet_re (trim l)")
    case True
    with h have "bullet_line ([], evs) l =
      ([], evs @ [\<lparr>ev_date = js ''Unknown'', ev_title = remove_first False tl_bullet_re (trim l),
                    ev_description = []\<rparr>])"
      by (simp add: bullet_line_def Let_def or_unknown_def)
    with True Cons.IH [OF r] show ?thesis by simp
  next
    case False
    note nb = False
    show ?thesis
    proof (cases "re_test False numbering_re (trim l)")
      case True
      with h nb have "bullet_line ([], evs) l =
        ([], evs @ [\<lparr>ev_date = js ''Unknown'', ev_title = remove_first False numbering_re (trim l),
                      ev_description = []\<rparr>])"
        by (simp add: bullet_line_def Let_def or_unknown_def)
      with True nb Cons.IH [OF r] show ?thesis by simp
    next
      case False
      with h nb have "bullet_line ([], evs) l = ([], evs)"
        by (simp add: bullet_line_def Let_def)
      with False nb Cons.IH [OF r] show ?thesis by simp
    qed
  qed
qed

text \<open>
  C8, amended. A block whose first line matches neither the bracket form nor a date
  pattern gives the event with the date \<open>Date Unknown\<close>, the whole first line as title and
  the other lines, joined by spaces and trimmed, as description. In the bullet format a
  bullet line, and a numbered line, met while the current date is empty adds exactly one
  event, with the date \<open>Unknown\<close>, the line without its marker as title and an empty
  description; so when no line is a heading, the events of the bullet format are these
  events for the bullet and numbered lines, in order. They are the result when the blocks
  give no event and the bullet format gives one. When neither the blocks nor the bullet
  format give an event, the result is the one placeholder event, with the date
  \<open>Sample Date\<close>.
\<close>

theorem timeline_unknown_dates:
  "(l0 \<noteq> [] \<and> re_exec False backend_re l0 = None \<and> re_exec False date_re l0 = None \<longrightarrow>
      block_event (l0 # ls) =
        [\<lparr>ev_date = js ''Date Unknown'', ev_title = l0, ev_description = trim (join [32] ls)\<rparr>])
   \<and> (\<not> re_test False heading_re (trim line) \<and> re_test False tl_bullet_re (trim line) \<longrightarrow>
        bullet_line ([], evs) line =
          ([], evs @ [\<lparr>ev_date = js ''Unknown'',
                        ev_title = remove_first False tl_bullet_re (trim line),
                        ev_description = []\<rparr>]))
   \<and> (\<not> re_test False heading_re (trim line) \<and> \<not> re_test False tl_bullet_re (trim line)
        \<and> re_test False numbering_re (trim line) \<longrightarrow>
        bullet_line ([], evs) line =
          ([], evs @ [\<lparr>ev_date = js ''Unknown'',
                        ev_title = remove_first False numbering_re (trim line),
                        ev_description = []\<rparr>]))
   \<and> ((\<forall>l \<in> set (nonblank (split_nl text)). \<not> re_test False heading_re (trim l)) \<longrightarrow>
        bullet_events text =
          map (\<lambda>l. \<lparr>ev_date = js ''Unknown'',
                     ev_title = (if re_test False tl_bullet_re (trim l)
                                 then remove_first False tl_bullet_re (trim l)
                                 else remove_first False numbering_re (trim l)),
                     ev_description = []\<rparr>)
              (filter (\<lambda>l. re_test False tl_bullet_re (trim l)
                           \<or> re_test False numbering_re (trim l))
                      (nonblank (split_nl text))))
   \<and> (block_events text = [] \<and> bullet_events text \<noteq> [] \<longrightarrow>
        parseTextTimeline text = bullet_events text)
   \<and> (block_events text = [] \<and> bullet_events text = [] \<longrightarrow>
        parseTextTimeline text =
          [\<lparr>ev_date = js ''Sample Date'', ev_title = js ''Sample Event'',
            ev_description = js ''Sample Description''\<rparr>])"
proof (intro conjI impI)
  assume "l0 \<noteq> [] \<and> re_exec False backend_re l0 = None \<and> re_exec False date_re l0 = None"
  then show "block_event (l0 # ls) =
        [\<lparr>ev_date = js ''Date Unknown'', ev_title = l0, ev_description = trim (join [32] ls)\<rparr>]"
    by (simp add: block_event_def Let_def or_unknown_def js_def)
next
  assume "\<not> re_test False heading_re (trim line) \<and> re_test False tl_bullet_re (trim line)"
  then show "bullet_line ([], evs) line =
          ([], evs @ [\<lparr>ev_date = js ''Unknown'',
                        ev_title = remove_first False tl_bullet_re (trim line),
                        ev_description = []\<rparr>])"
    by (simp add: bullet_line_def Let_def or_unknown_def)
next
  assume "\<not> re_test False heading_re (trim line) \<and> \<not> re_test False tl_bullet_re (trim line)
        \<and> re_test False numbering_re (trim line)"
  then show "bullet_line ([], evs) line =
          ([], evs @ [\<lparr>ev_date = js ''Unknown'',
                        ev_title = remove_first False numbering_re (trim line),
                        ev_description = []\<rparr>])"
    by (simp add: bullet_line_def Let_def or_unknown_def)
next
  assume "\<forall>l \<in> set (nonblank (split_nl text)). \<not> re_test False heading_re (trim l)"
  from bullet_fold_no_heading [OF this, of "[]"]
  show "bullet_events text =
          map (\<lambda>l. \<lparr>ev_date = js ''Unknown'',
                     ev_title = (if re_test False tl_bullet_re (trim l)
                                 then remove_first False tl_bullet_re (trim l)
                                 else remove_first False numbering_re (trim l)),
                     ev_description = []\<rparr>)
              (filter (\<lambda>l. re_test False tl_bullet_re (trim l)
                           \<or> re_test False numbering_re (trim l))
                      (nonblank (split_nl text)))"
    by (simp add: bullet_events_def)
next
  assume "block_events text = [] \<and> bullet_events text \<noteq> []"
  then show "parseTextTimeline text = bullet_events text"
    by (simp add: parseTextTimeline_def)
next
  assume "block_events text = [] \<and> bullet_events text = []"
  then show "parseTextTimeline text =
          [\<lparr>ev_date = js ''Sample Date'', ev_title = js ''Sample Event'',
            ev_description = js ''Sample Description''\<rparr>]"
    by (simp add: parseTextTimeline_def sample_event_def)
qed

theorem timeline_unknown_dates_witness:
  "js ''Hello'' \<noteq> [] \<and> re_exec False backend_re (js ''Hello'') = None
   \<and> re_exec False date_re (js ''Hello'') = None
   \<and> block_event [js ''Hello'', js ''there''] =
        [\<lparr>ev_date = js ''Date Unknown'', ev_title = js ''Hello'', ev_description = js ''there''\<rparr>]
   \<and> bullet_line ([], []) (js ''- item'') =
        ([], [\<lparr>ev_date = js ''Unknown'', ev_title = js ''item'', ev_description = []\<rparr>])
   \<and> bullet_line ([], []) (js ''1. first'') =
        ([], [\<lparr>ev_date = js ''Unknown'', ev_title = js ''first'', ev_description = []\<rparr>])
   \<and> nonblank (split_nl (js ''2020\<newline>- item\<newline>1. first'')) =
        [js ''2020'', js ''- item'', js ''1. first'']
   \<and> block_events (js ''2020\<newline>- item\<newline>1. first'') = []
   \<and> bullet_events (js ''2020\<newline>- item\<newline>1. first'') =
        [\<lparr>ev_date = js ''Unknown'', ev_title = js ''item'', ev_description = []\<rparr>,
         \<lparr>ev_date = js ''Unknown'', ev_title = js ''first'', ev_description = []\<rparr>]
   \<and> parseTextTimeline (js ''2020\<newline>- item\<newline>1. first'') =
        [\<lparr>ev_date = js ''Unknown'', ev_title = js ''item'', ev_description = []\<rparr>,
         \<lparr>ev_date = js ''Unknown'', ev_title = js ''first'', ev_description = []\<rparr>]
   \<and> block_events [] = [] \<and> bullet_events [] = []
   \<and> parseTextTimeline [] =
          [\<lparr>ev_date = js ''Sample Date'', ev_title = js ''Sample Event'',
            ev_description = js ''Sample Description''\<rparr>]"
proof -
  let ?t = "js ''2020\<newline>- item\<newline>1. first''"
  have a: "js ''Hello'' \<noteq> [] \<and> re_exec False backend_re (js ''Hello'') = None
   \<and> re_exec False date_re (js ''Hello'') = None"
    by (simp add: js_eval quiz_eval timeline_eval)
  have d: "trim (join [32] [js ''there'']) = js ''there''"
    by (simp add: js_eval)
  have b1: "\<not> re_test False heading_re (trim (js ''- item''))
            \<and> re_test False tl_bullet_re (trim (js ''- item''))"
    by (simp add: js_eval quiz_eval card_eval timeline_eval)
  have b2: "remove_first False tl_bullet_re (trim (js ''- item'')) = js ''item''"
    by (simp add: js_eval quiz_eval card_eval timeline_eval)
  have n1: "\<not> re_test False heading_re (trim (js ''1. first''))
            \<and> \<not> re_test False tl_bullet_re (trim (js ''1. first''))
            \<and> re_test False numbering_re (trim (js ''1. first''))"
    by (simp add: js_eval quiz_eval card_eval timeline_eval)
  have n2: "remove_first False numbering_re (trim (js ''1. first'')) = js ''first''"
    by (simp add: js_eval quiz_eval card_eval timeline_eval)
  have y: "\<not> re_test False heading_re (trim (js ''2020''))
            \<and> \<not> re_test False tl_bullet_re (trim (js ''2020''))
            \<and> \<not> re_test False numbering_re (trim (js ''2020''))"
    by (simp add: js_eval quiz_eval card_eval timeline_eval)
  have ls: "nonblank (split_nl ?t) = [js ''2020'', js ''- item'', js ''1. first'']"
    by (simp add: js_eval quiz_eval card_eval timeline_eval)
  have be: "block_events ?t = []"
    by (simp add: js_eval quiz_eval card_eval timeline_eval)
  have c: "block_events [] = [] \<and> bullet_events [] = []"
    by (simp add: js_eval quiz_eval timeline_eval)
  from timeline_unknown_dates [of "js ''Hello''" "[js ''there'']" "js ''- item''" "[]" "[]"] a d b1 b2 c
  have w1: "block_event [js ''Hello'', js ''there''] =
        [\<lparr>ev_date = js ''Date Unknown'', ev_title = js ''Hello'', ev_description = js ''there''\<rparr>]
   \<and> bullet_line ([], []) (js ''- item'') =
        ([], [\<lparr>ev_date = js ''Unknown'', ev_title = js ''item'', ev_description = []\<rparr>])
   \<and> parseTextTimeline [] =
          [\<lparr>ev_date = js ''Sample Date'', ev_title = js ''Sample Event'',
            ev_description = js ''Sample Description''\<rparr>]"
    by simp
  from timeline_unknown_dates [of "js ''Hello''" "[js ''there'']" "js ''1. first''" "[]" ?t]
       n1 n2 b1 b2 y ls be
  have w2: "bullet_line ([], []) (js ''1. first'') =
        ([], [\<lparr>ev_date = js ''Unknown'', ev_title = js ''first'', ev_description = []\<rparr>])
   \<and> bullet_events ?t =
        [\<lparr>ev_date = js ''Unknown'', ev_title = js ''item'', ev_description = []\<rparr>,
         \<lparr>ev_date = js ''Unknown'', ev_title = js ''first'', ev_description = []\<rparr>]
   \<and> parseTextTimeline ?t =
        [\<lparr>ev_date = js ''Unknown'', ev_title = js ''item'', ev_description = []\<rparr>,
         \<lparr>ev_date = js ''Unknown'', ev_title = js ''first'', ev_description = []\<rparr>]"
    by simp
  from a w1 w2 ls be c show ?thesis by blast
qed

section \<open>The parse steps: theorems\<close>

text \<open>
  C1, as stated, fails: the quiz viewer's parse step returns the empty list for the empty
  string and for white space, and the quiz, timeline and flashcard viewers return the empty
  list for JSON that is not an array.
\<close>

theorem empty_models:
  \<open>QuizViewer_questions (js '''') = [] \<and> QuizViewer_questions (js ''   '') = []
   \<and> QuizViewer_questions (js ''{}'') = [] \<and> TimelineViewer_events (js ''{}'') = []
   \<and> FlashcardsViewer_flashcards (js ''{}'') = []\<close>
  by (simp add: js_eval quiz_eval json_eval viewer_eval)

lemma parseTextFlashcards_nonempty: "parseTextFlashcards t \<noteq> []"
  by (simp add: parseTextFlashcards_def Let_def)

lemma parseTextTimeline_nonempty: "parseTextTimeline t \<noteq> []"
  by (simp add: parseTextTimeline_def Let_def)

lemma parseTextMindMap_nonempty: "mm_nodes (parseTextMindMap t) \<noteq> []"
  by (simp add: parseTextMindMap_def Let_def)

text \<open>The mind map viewer destructures the decoded value outside its \<^verbatim>\<open>try\<close>: the input
  \<open>null\<close> is valid JSON and makes the parse step throw.\<close>

lemma mind_map_null_throws: "MindMapViewer_initial (js ''null'') = Inl TypeError"
  by (simp add: js_eval json_eval viewer_eval)

text \<open>
  C1, amended. For every input string the text grammars of the mind map, the flashcards
  and the timeline return a model that is not empty, so the parse steps of these three
  viewers return a non-empty model whenever the input is not JSON. In the quiz viewer
  whatever is thrown while the JSON is tried is caught and the result of the text grammar is
  returned, which may be empty. JSON that decodes to something other than an array gives the
  empty list in the flashcard, timeline and quiz viewers.
\<close>

theorem parse_steps_total:
  "mm_nodes (parseTextMindMap t) \<noteq> [] \<and> parseTextFlashcards t \<noteq> [] \<and> parseTextTimeline t \<noteq> []
   \<and> (JSON_parse t = None \<longrightarrow>
        MindMapViewer_initial t = Inr (TextGraph (parseTextMindMap t))
        \<and> FlashcardsViewer_flashcards t = map card_obj (parseTextFlashcards t)
        \<and> FlashcardsViewer_flashcards t \<noteq> []
        \<and> TimelineViewer_events t = map event_obj (parseTextTimeline t)
        \<and> TimelineViewer_events t \<noteq> [])
   \<and> (quiz_try t = Inl err \<longrightarrow> QuizViewer_questions t = map question_obj (parseTextQuiz t))
   \<and> (JSON_parse t = Some v \<and> (\<forall>xs. v \<noteq> JArr xs) \<longrightarrow>
        FlashcardsViewer_flashcards t = [] \<and> TimelineViewer_events t = [])
   \<and> (JSON_parse (cleanContent t) = Some v \<and> (\<forall>xs. v \<noteq> JArr xs) \<longrightarrow>
        QuizViewer_questions t = [])"
proof (intro conjI impI)
  assume "JSON_parse t = Some v \<and> (\<forall>xs. v \<noteq> JArr xs)"
  then show "FlashcardsViewer_flashcards t = []" "TimelineViewer_events t = []"
    by (cases v; simp add: FlashcardsViewer_flashcards_def TimelineViewer_events_def)+
next
  assume "JSON_parse (cleanContent t) = Some v \<and> (\<forall>xs. v \<noteq> JArr xs)"
  then show "QuizViewer_questions t = []"
    by (cases v; simp add: QuizViewer_questions_def quiz_try_def)
qed (simp_all add: parseTextFlashcards_nonempty parseTextTimeline_nonempty
       parseTextMindMap_nonempty MindMapViewer_initial_def FlashcardsViewer_flashcards_def
       TimelineViewer_events_def QuizViewer_questions_def)

theorem parse_steps_total_witness:
  \<open>JSON_parse (js ''Hello'') = None \<and> quiz_try (js ''Hello'') = Inl SyntaxError
   \<and> MindMapViewer_initial (js ''Hello'') = Inr (TextGraph (parseTextMindMap (js ''Hello'')))
   \<and> FlashcardsViewer_flashcards (js ''Hello'') \<noteq> []
   \<and> TimelineViewer_events (js ''Hello'') \<noteq> []
   \<and> QuizViewer_questions (js ''Hello'') = map question_obj (parseTextQuiz (js ''Hello''))
   \<and> JSON_parse (js ''{}'') = Some (JObj []) \<and> (\<forall>xs. JObj [] \<noteq> JArr xs)
   \<and> FlashcardsViewer_flashcards (js ''{}'') = [] \<and> TimelineViewer_events (js ''{}'') = []
   \<and> JSON_parse (cleanContent (js ''{}'')) = Some (JObj []) \<and> QuizViewer_questions (js ''{}'') = []\<close>
proof -
  have a: "JSON_parse (js ''Hello'') = None"
    by (simp add: js_eval json_eval)
  have b: "quiz_try (js ''Hello'') = Inl SyntaxError"
    by (simp add: js_eval quiz_eval json_eval viewer_eval)
  have c: "JSON_parse (js ''{}'') = Some (JObj [])"
    by (simp add: js_eval json_eval)
  have d: "JSON_parse (cleanContent (js ''{}'')) = Some (JObj [])"
    by (simp add: js_eval quiz_eval json_eval viewer_eval)
  from d parse_steps_total [of "js ''Hello''" SyntaxError JNull]
       parse_steps_total [of "js ''{}''" SyntaxError "JObj []"] a b c
  show ?thesis by simp
qed

text \<open>
  C4. Only the quiz viewer strips the fences. The timeline viewer hands the fenced text
  to \<^verbatim>\<open>JSON.parse\<close> as it is, which fails on the first backtick, so a well-formed JSON
  array in a fenced block goes to the text grammar: the event it should decode to is lost
  and the fence line becomes the title of an undated event. The flashcard and mind map
  viewers take the same route; the quiz viewer decodes its fenced payload on the JSON path.
\<close>

theorem fenced_json_goes_to_text_grammar:
  \<open>TimelineViewer_events (js ''[{"date":"1969","title":"Moon"}]'') =
     [JObj [(js ''date'', JStr (js ''1969'')), (js ''title'', JStr (js ''Moon''))]]
   \<and> cleanContent (js ''```json\<newline>[{"date":"1969","title":"Moon"}]\<newline>```'') =
       js ''[{"date":"1969","title":"Moon"}]''
   \<and> JSON_parse (js ''```json\<newline>[{"date":"1969","title":"Moon"}]\<newline>```'') = None
   \<and> TimelineViewer_events (js ''```json\<newline>[{"date":"1969","title":"Moon"}]\<newline>```'') =
     [JObj [(js ''date'', JStr (js ''Date Unknown'')), (js ''title'', JStr (js ''```json'')),
            (js ''description'', JStr (js ''[{"date":"1969","title":"Moon"}] ```''))]]
   \<and> FlashcardsViewer_flashcards (js ''```json\<newline>[{"date":"1969","title":"Moon"}]\<newline>```'') =
       map card_obj (parseTextFlashcards (js ''```json\<newline>[{"date":"1969","title":"Moon"}]\<newline>```''))
   \<and> MindMapViewer_initial (js ''```json\<newline>[{"date":"1969","title":"Moon"}]\<newline>```'') =
       Inr (TextGraph (parseTextMindMap (js ''```json\<newline>[{"date":"1969","title":"Moon"}]\<newline>```'')))
   \<and> QuizViewer_questions
         (js ''```json\<newline>[{"question":"q","options":["a","b"],"correctAnswer":1}]\<newline>```'') =
     [JObj [(js ''question'', JStr (js ''q'')), (js ''options'', JArr [JStr (js ''a''), JStr (js ''b'')]),
            (js ''correctAnswer'', JNum 1 0)]]\<close>
proof -
  have p: \<open>JSON_parse (js ''```json\<newline>[{"date":"1969","title":"Moon"}]\<newline>```'') = None\<close>
    by (simp add: js_eval json_eval)
  have a: \<open>TimelineViewer_events (js ''[{"date":"1969","title":"Moon"}]'') =
     [JObj [(js ''date'', JStr (js ''1969'')), (js ''title'', JStr (js ''Moon''))]]\<close>
    by (simp add: js_eval json_eval viewer_eval)
  have b: \<open>cleanContent (js ''```json\<newline>[{"date":"1969","title":"Moon"}]\<newline>```'') =
       js ''[{"date":"1969","title":"Moon"}]''\<close>
    by (simp add: js_eval quiz_eval viewer_eval)
  have c: \<open>TimelineViewer_events (js ''```json\<newline>[{"date":"1969","title":"Moon"}]\<newline>```'') =
     [JObj [(js ''date'', JStr (js ''Date Unknown'')), (js ''title'', JStr (js ''```json'')),
            (js ''description'', JStr (js ''[{"date":"1969","title":"Moon"}] ```''))]]\<close>
    by (simp add: js_eval quiz_eval timeline_eval json_eval viewer_eval)
  have d: \<open>QuizViewer_questions
         (js ''```json\<newline>[{"question":"q","options":["a","b"],"correctAnswer":1}]\<newline>```'') =
     [JObj [(js ''question'', JStr (js ''q'')), (js ''options'', JArr [JStr (js ''a''), JStr (js ''b'')]),
            (js ''correctAnswer'', JNum 1 0)]]\<close>
    by (simp add: js_eval quiz_eval json_eval viewer_eval)
  show ?thesis
    using a b c d p
    by (simp add: FlashcardsViewer_flashcards_def MindMapViewer_initial_def)
qed

end
